theory Spec2Isabelle
  imports Complex_Main
begin

text \<open>
  A shallow embedding of the resume one-page auto-fit system: the auto-fit search and
  the render executor of the render context (\<open>resume_renderer.js\<close>), the handshake
  between the render context and its host (\<open>ResumeController\<close>), the shared state
  store (\<open>ResumeStateManager\<close>) and the Paged.js middleware with its task processor.
  The definitions come first, section by section; the properties follow, starting with
  those of the auto-fit search.
\<close>

section \<open>Numbers and CSS values of the render context\<close>

text \<open>
  JavaScript numbers are modelled as real numbers, extended by the three special values
  a division can produce. Rounding error of binary floating point is not modelled: every
  arithmetic operation below is the exact one.
\<close>

datatype jsnum = Fin real | PosInf | NegInf | NaN

definition js_div :: "real \<Rightarrow> real \<Rightarrow> jsnum" where
  "js_div a b =
     (if b = 0 then (if 0 < a then PosInf else if a < 0 then NegInf else NaN)
      else Fin (a / b))"

fun js_lt :: "jsnum \<Rightarrow> real \<Rightarrow> bool" where
  "js_lt (Fin x) c = (x < c)"
| "js_lt NegInf c = True"
| "js_lt PosInf c = False"
| "js_lt NaN c = False"

text \<open>\<open>Math.round(x * 100) / 100\<close>; \<open>Math.round\<close> rounds halves upwards.\<close>

definition round2 :: "real \<Rightarrow> real" where
  "round2 x = of_int \<lfloor>x * 100 + 1 / 2\<rfloor> / 100"

text \<open>\<open>parseFloat(x.toFixed(2))\<close>: two decimals, halves away from zero.\<close>

fun toFixed2 :: "jsnum \<Rightarrow> jsnum" where
  "toFixed2 (Fin x) = Fin (if x < 0 then - round2 (- x) else round2 x)"
| "toFixed2 PosInf = PosInf"
| "toFixed2 NegInf = NegInf"
| "toFixed2 NaN = NaN"

text \<open>
  The text of a CSS custom property, as far as \<open>parseFloat\<close> can tell texts apart:
  \<open>CssNum v u\<close> is a text that starts with the number \<open>v\<close> and goes on with \<open>u\<close> (the
  renderer writes \<open>newVal + strat.unit\<close>), \<open>CssText t\<close> is a text with no leading number
  (the empty text of an unset property included), on which \<open>parseFloat\<close> yields NaN.
\<close>

datatype css_value = CssNum real string | CssText string

fun parseFloat :: "css_value \<Rightarrow> real option" where
  "parseFloat (CssNum v u) = Some v"
| "parseFloat (CssText t) = None"

type_synonym styles = "string \<rightharpoonup> css_value"

section \<open>What the pagination oracle leaves in the document\<close>

text \<open>
  The auto-fit engine reads three things from the document after a pass: the number of
  \<open>.pagedjs_page\<close> elements, the first \<open>.pagedjs_page_content\<close> element (its scroll
  height, the top edge of its bounding box and the bottom edges of its descendants in
  document order) and the client height of the first \<open>.pagedjs_pagebox\<close>.
\<close>

record page_content =
  scrollHeight :: real
  contentTop :: real
  descendantBottoms :: "real list"

record measurement =
  pages :: nat
  pageContent :: "page_content option"
  pageBox :: "real option"

record fill_info =
  isSparse :: bool
  ratio :: jsnum

definition actualContentHeight :: "page_content \<Rightarrow> real" where
  "actualContentHeight pc =
     (if descendantBottoms pc \<noteq> [] then last (descendantBottoms pc) - contentTop pc
      else scrollHeight pc)"

definition checkContentFill :: "measurement \<Rightarrow> fill_info" where
  "checkContentFill m =
     (case pageContent m of
        None \<Rightarrow> \<lparr>isSparse = False, ratio = Fin 1\<rparr>
      | Some pc \<Rightarrow>
          (case pageBox m of
             None \<Rightarrow> \<lparr>isSparse = False, ratio = Fin 1\<rparr>
           | Some availableHeight \<Rightarrow>
               (let fillRatio = js_div (actualContentHeight pc) availableHeight
                in \<lparr>isSparse = js_lt fillRatio (85 / 100), ratio = toFixed2 fillRatio\<rparr>)))"

section \<open>Style state of the render context\<close>

text \<open>
  \<open>currentStyles\<close> is the renderer's cache of style variables, \<open>rootStyle\<close> the inline
  style of the document element and \<open>sheet\<close> the style sheet's own declarations of the
  variables (the CSS file is not part of the sources, and nothing below changes it).
  For the auto-fit search the state also holds \<open>document\<close>, what the last pass left in
  the document, and \<open>renders\<close>, the number of passes run so far.
\<close>

record style_state =
  currentStyles :: styles
  rootStyle :: styles
  sheet :: styles

record fit_state = style_state +
  document :: measurement
  renders :: nat

text \<open>
  \<open>root.style.setProperty(key, val)\<close> for every entry of an update: the property is
  set, or removed when the value is the empty text.
\<close>

definition setProperties :: "styles \<Rightarrow> styles \<Rightarrow> styles" where
  "setProperties upd inline =
     (\<lambda>k. case upd k of
            None \<Rightarrow> inline k
          | Some v \<Rightarrow> if v = CssText [] then None else Some v)"

text \<open>
  \<open>handleStyleUpdate\<close> stores every entry in the cache and sets it on the document
  element.
\<close>

definition handleStyleUpdate ::
  "styles \<Rightarrow> 'a style_state_scheme \<Rightarrow> 'a style_state_scheme" where
  "handleStyleUpdate upd st =
     st\<lparr>currentStyles := currentStyles st ++ upd,
        rootStyle := setProperties upd (rootStyle st)\<rparr>"

text \<open>\<open>getComputedStyle(document.documentElement).getPropertyValue(v).trim()\<close>\<close>

definition computed :: "'a style_state_scheme \<Rightarrow> string \<Rightarrow> css_value" where
  "computed st v =
     (case rootStyle st v of
        Some x \<Rightarrow> x
      | None \<Rightarrow> (case sheet st v of Some x \<Rightarrow> x | None \<Rightarrow> CssText []))"

text \<open>
  One pass of the render executor as the auto-fit loop sees it, which awaits each pass
  with the lock free: the cached styles are re-applied to the document element and the
  oracle lays the content out. The oracle is a function of the computed style variables
  (the content baseline is fixed during a run); a pass that fails leaves no page, which
  is a measurement with \<open>pages = 0\<close>.
\<close>

type_synonym layout_oracle = "(string \<Rightarrow> css_value) \<Rightarrow> measurement"

definition renderAndCount :: "layout_oracle \<Rightarrow> fit_state \<Rightarrow> fit_state" where
  "renderAndCount orc st =
     (let st1 = handleStyleUpdate (currentStyles st) st
      in st1\<lparr>document := orc (computed st1), renders := renders st + 1\<rparr>)"

section \<open>Strategies of the bidirectional auto-fit\<close>

text \<open>
  An entry of \<open>ResumeConfig.sliderConfig\<close>; a field is \<open>None\<close> when the entry has no
  number there (\<open>typeof s.step === 'number'\<close> fails).
\<close>

record slider =
  slider_id :: string
  slider_min :: "real option"
  slider_max :: "real option"
  slider_step :: "real option"

definition getSlider :: "slider list \<Rightarrow> string \<Rightarrow> slider option" where
  "getSlider sliderCfg i = find (\<lambda>s. slider_id s = i) sliderCfg"

definition getStep :: "slider list \<Rightarrow> string \<Rightarrow> real \<Rightarrow> real" where
  "getStep sliderCfg i fallback =
     (case getSlider sliderCfg i of
        None \<Rightarrow> fallback
      | Some s \<Rightarrow> (case slider_step s of Some x \<Rightarrow> x | None \<Rightarrow> fallback))"

definition getLimit :: "slider list \<Rightarrow> string \<Rightarrow> bool \<Rightarrow> real \<Rightarrow> real" where
  "getLimit sliderCfg i isMax fallback =
     (case getSlider sliderCfg i of
        None \<Rightarrow> fallback
      | Some s \<Rightarrow>
          (case (if isMax then slider_max s else slider_min s) of
             Some x \<Rightarrow> x
           | None \<Rightarrow> fallback))"

text \<open>
  A strategy names a style variable, its step and unit and one bound: the minimum in
  the shrink order, the maximum in the expand order.
\<close>

record strategy =
  name :: string
  cssVar :: string
  sid :: string
  step :: real
  unit :: string
  bound :: real

definition shrinkStrategies :: "slider list \<Rightarrow> strategy list" where
  "shrinkStrategies c =
     [\<lparr>name = ''pageMargin'', cssVar = ''--page-margin'', sid = ''marginSlider'',
        step = getStep c ''marginSlider'' 1, unit = ''mm'',
        bound = getLimit c ''marginSlider'' False 7\<rparr>,
      \<lparr>name = ''bodyMargin'', cssVar = ''--body-margin'', sid = ''bodyMarginSlider'',
        step = getStep c ''bodyMarginSlider'' (1 / 10), unit = ''em'',
        bound = getLimit c ''bodyMarginSlider'' False 0\<rparr>,
      \<lparr>name = ''ulMargin'', cssVar = ''--ul-margin'', sid = ''ulMarginSlider'',
        step = getStep c ''ulMarginSlider'' (1 / 10), unit = ''em'',
        bound = getLimit c ''ulMarginSlider'' False 0\<rparr>,
      \<lparr>name = ''headingScale'', cssVar = ''--heading-scale'', sid = ''headingSlider'',
        step = getStep c ''headingSlider'' (1 / 10), unit = [],
        bound = getLimit c ''headingSlider'' False 1\<rparr>,
      \<lparr>name = ''lineHeight'', cssVar = ''--line-height'', sid = ''lineHeightSlider'',
        step = getStep c ''lineHeightSlider'' (5 / 100), unit = [],
        bound = getLimit c ''lineHeightSlider'' False 1\<rparr>,
      \<lparr>name = ''fontSize'', cssVar = ''--body-font-size'', sid = ''fontSlider'',
        step = getStep c ''fontSlider'' (1 / 2), unit = ''pt'',
        bound = getLimit c ''fontSlider'' False 9\<rparr>]"

definition expandStrategies :: "slider list \<Rightarrow> strategy list" where
  "expandStrategies c =
     [\<lparr>name = ''fontSize'', cssVar = ''--body-font-size'', sid = ''fontSlider'',
        step = getStep c ''fontSlider'' (1 / 2), unit = ''pt'',
        bound = getLimit c ''fontSlider'' True 12\<rparr>,
      \<lparr>name = ''lineHeight'', cssVar = ''--line-height'', sid = ''lineHeightSlider'',
        step = getStep c ''lineHeightSlider'' (5 / 100), unit = [],
        bound = getLimit c ''lineHeightSlider'' True (16 / 10)\<rparr>,
      \<lparr>name = ''headingScale'', cssVar = ''--heading-scale'', sid = ''headingSlider'',
        step = getStep c ''headingSlider'' (1 / 10), unit = [],
        bound = getLimit c ''headingSlider'' True (17 / 10)\<rparr>,
      \<lparr>name = ''bodyMargin'', cssVar = ''--body-margin'', sid = ''bodyMarginSlider'',
        step = getStep c ''bodyMarginSlider'' (1 / 10), unit = ''em'',
        bound = getLimit c ''bodyMarginSlider'' True (1 / 2)\<rparr>,
      \<lparr>name = ''ulMargin'', cssVar = ''--ul-margin'', sid = ''ulMarginSlider'',
        step = getStep c ''ulMarginSlider'' (1 / 10), unit = ''em'',
        bound = getLimit c ''ulMarginSlider'' True (1 / 2)\<rparr>,
      \<lparr>name = ''pageMargin'', cssVar = ''--page-margin'', sid = ''marginSlider'',
        step = getStep c ''marginSlider'' 1, unit = ''mm'',
        bound = getLimit c ''marginSlider'' True 15\<rparr>]"

definition maxIterations :: nat where
  "maxIterations = 25"

text \<open>
  \<open>applyShrinkStep\<close>: the first strategy of the list whose variable parses to a number
  above its minimum by more than 0.001 is lowered by one step, not below the minimum,
  and the new value is rounded to two decimals. \<open>None\<close> is the source's \<open>false\<close>.
\<close>

fun applyShrinkStep :: "strategy list \<Rightarrow> fit_state \<Rightarrow> fit_state option" where
  "applyShrinkStep [] st = None"
| "applyShrinkStep (strat # rest) st =
     (case parseFloat (computed st (cssVar strat)) of
        None \<Rightarrow> applyShrinkStep rest st
      | Some val \<Rightarrow>
          if val > bound strat + 1 / 1000 then
            (let newVal = round2 (max (bound strat) (val - step strat))
             in Some (handleStyleUpdate [cssVar strat \<mapsto> CssNum newVal (unit strat)] st))
          else applyShrinkStep rest st)"

text \<open>
  \<open>applyExpandStep\<close>: the mirror image towards the maximum; it also returns the
  strategy it used and the value the variable had before (\<open>{ strat, prevVal }\<close>).
\<close>

fun applyExpandStep ::
  "strategy list \<Rightarrow> fit_state \<Rightarrow> (strategy \<times> real \<times> fit_state) option" where
  "applyExpandStep [] st = None"
| "applyExpandStep (strat # rest) st =
     (case parseFloat (computed st (cssVar strat)) of
        None \<Rightarrow> applyExpandStep rest st
      | Some val \<Rightarrow>
          if val < bound strat - 1 / 1000 then
            (let newVal = round2 (min (bound strat) (val + step strat))
             in Some (strat, val,
                  handleStyleUpdate [cssVar strat \<mapsto> CssNum newVal (unit strat)] st))
          else applyExpandStep rest st)"

section \<open>The auto-fit search\<close>

datatype direction = NoDirection | Shrink | Expand

text \<open>The loops carry the style state, the local \<open>pageCount\<close> and \<open>iteration\<close>.\<close>

function shrink_loop ::
  "layout_oracle \<Rightarrow> strategy list \<Rightarrow> fit_state \<Rightarrow> nat \<Rightarrow> nat \<Rightarrow> fit_state \<times> nat \<times> nat" where
  "shrink_loop orc ss st pageCount iteration =
     (if pageCount > 1 \<and> iteration < maxIterations then
        (case applyShrinkStep ss st of
           None \<Rightarrow> (st, pageCount, iteration)
         | Some st1 \<Rightarrow>
             (let st2 = renderAndCount orc st1
              in shrink_loop orc ss st2 (pages (document st2)) (iteration + 1)))
      else (st, pageCount, iteration))"
  by pat_completeness auto
termination
  by (relation "measure (\<lambda>(orc, ss, st, pageCount, iteration). maxIterations - iteration)")
     auto

function expand_loop ::
  "layout_oracle \<Rightarrow> strategy list \<Rightarrow> fit_state \<Rightarrow> nat \<Rightarrow> nat \<Rightarrow> fit_state \<times> nat \<times> nat" where
  "expand_loop orc es st pageCount iteration =
     (if pageCount = 1 \<and> iteration < maxIterations then
        (if \<not> isSparse (checkContentFill (document st)) then (st, pageCount, iteration)
         else
           (case applyExpandStep es st of
              None \<Rightarrow> (st, pageCount, iteration)
            | Some (strat, prevVal, st1) \<Rightarrow>
                (let st2 = renderAndCount orc st1
                 in if pages (document st2) > 1 then
                      (let st3 = handleStyleUpdate
                                   [cssVar strat \<mapsto> CssNum prevVal (unit strat)] st2;
                           st4 = renderAndCount orc st3
                       in (st4, pages (document st4), iteration))
                    else expand_loop orc es st2 (pages (document st2)) (iteration + 1))))
      else (st, pageCount, iteration))"
  by pat_completeness auto
termination
  by (relation "measure (\<lambda>(orc, es, st, pageCount, iteration). maxIterations - iteration)")
     auto

record autoFitResult =
  attempted :: bool
  direction :: direction
  success :: bool
  iterations :: nat
  finalPageCount :: nat
  fillRatio :: jsnum

definition initial_direction :: "measurement \<Rightarrow> direction" where
  "initial_direction m =
     (if pages m > 1 then Shrink
      else if pages m = 1 \<and> isSparse (checkContentFill m) then Expand
      else NoDirection)"

definition fitToOnePage ::
  "slider list \<Rightarrow> layout_oracle \<Rightarrow> fit_state \<Rightarrow> fit_state \<times> autoFitResult" where
  "fitToOnePage sliderCfg orc st =
     (let d = initial_direction (document st);
          (st1, pc1, it1) =
            (if d = Shrink
             then shrink_loop orc (shrinkStrategies sliderCfg) st (pages (document st)) 0
             else (st, pages (document st), 0));
          (st2, pc2, it2) =
            (if d = Expand
             then expand_loop orc (expandStrategies sliderCfg) st1 pc1 it1
             else (st1, pc1, it1))
      in (st2,
          \<lparr>attempted = True, direction = d, success = (pages (document st2) = 1),
           iterations = it2, finalPageCount = pages (document st2),
           fillRatio = ratio (checkContentFill (document st2))\<rparr>))"

text \<open>
  The two conditions the step helpers test, and the state each step leaves: a strategy
  has headroom when its variable parses to a number that is more than 0.001 away from
  the bound.
\<close>

definition shrinkHeadroom :: "fit_state \<Rightarrow> strategy \<Rightarrow> bool" where
  "shrinkHeadroom st s =
     (case parseFloat (computed st (cssVar s)) of
        None \<Rightarrow> False
      | Some val \<Rightarrow> val > bound s + 1 / 1000)"

definition shrinkTo :: "fit_state \<Rightarrow> strategy \<Rightarrow> fit_state" where
  "shrinkTo st s =
     (case parseFloat (computed st (cssVar s)) of
        None \<Rightarrow> st
      | Some val \<Rightarrow>
          handleStyleUpdate
            [cssVar s \<mapsto> CssNum (round2 (max (bound s) (val - step s))) (unit s)] st)"

definition expandHeadroom :: "fit_state \<Rightarrow> strategy \<Rightarrow> bool" where
  "expandHeadroom st s =
     (case parseFloat (computed st (cssVar s)) of
        None \<Rightarrow> False
      | Some val \<Rightarrow> val < bound s - 1 / 1000)"

definition expandTo :: "fit_state \<Rightarrow> strategy \<Rightarrow> fit_state" where
  "expandTo st s =
     (case parseFloat (computed st (cssVar s)) of
        None \<Rightarrow> st
      | Some val \<Rightarrow>
          handleStyleUpdate
            [cssVar s \<mapsto> CssNum (round2 (min (bound s) (val + step s))) (unit s)] st)"

text \<open>
  The document shows a completed pass of the current styles: what the search finds
  when it is started after a measured pass, and what every pass of its own leaves.
\<close>

definition settled :: "layout_oracle \<Rightarrow> fit_state \<Rightarrow> bool" where
  "settled orc st \<longleftrightarrow>
     document st = orc (computed st) \<and>
     setProperties (currentStyles st) (rootStyle st) = rootStyle st"

text \<open>\<open>ResumeConfig.sliderConfig\<close> as \<open>config.example.js\<close> ships it.\<close>

definition sliderConfig :: "slider list" where
  "sliderConfig =
     [\<lparr>slider_id = ''fontSlider'', slider_min = Some 9, slider_max = Some 13,
        slider_step = Some (1 / 2)\<rparr>,
      \<lparr>slider_id = ''headingSlider'', slider_min = Some 1, slider_max = Some (17 / 10),
        slider_step = Some (1 / 10)\<rparr>,
      \<lparr>slider_id = ''lineHeightSlider'', slider_min = Some 1, slider_max = Some (17 / 10),
        slider_step = Some (5 / 100)\<rparr>,
      \<lparr>slider_id = ''marginSlider'', slider_min = Some 7, slider_max = Some 21,
        slider_step = Some 1\<rparr>,
      \<lparr>slider_id = ''titleHrMarginSlider'', slider_min = Some 0, slider_max = Some (7 / 10),
        slider_step = Some (1 / 10)\<rparr>,
      \<lparr>slider_id = ''bodyMarginSlider'', slider_min = Some 0, slider_max = Some (1 / 2),
        slider_step = Some (1 / 10)\<rparr>,
      \<lparr>slider_id = ''ulMarginSlider'', slider_min = Some 0, slider_max = Some (1 / 2),
        slider_step = Some (1 / 10)\<rparr>,
      \<lparr>slider_id = ''strongParagraphMarginSlider'', slider_min = Some 0,
        slider_max = Some (2 / 10), slider_step = Some (1 / 10)\<rparr>]"

text \<open>
  The shrink step in the words of the specification, for comparison with
  \<open>applyShrinkStep\<close>: the first parameter whose value minus its step remains at or
  above its minimum is lowered by that step, the step rounded to two decimals.
\<close>

definition specShrinkStep :: "strategy list \<Rightarrow> fit_state \<Rightarrow> fit_state option" where
  "specShrinkStep ss st =
     (case find (\<lambda>s. case parseFloat (computed st (cssVar s)) of
                        None \<Rightarrow> False
                      | Some val \<Rightarrow> val - step s \<ge> bound s) ss of
        None \<Rightarrow> None
      | Some s \<Rightarrow>
          (case parseFloat (computed st (cssVar s)) of
             None \<Rightarrow> None
           | Some val \<Rightarrow>
               Some (handleStyleUpdate
                       [cssVar s \<mapsto> CssNum (val - round2 (step s)) (unit s)] st)))"

text \<open>A two-page document whose page margin, 7.5 mm, is half a step above its minimum.\<close>

definition halfStepState :: fit_state where
  "halfStepState =
     \<lparr>currentStyles = Map.empty,
      rootStyle = [''--page-margin'' \<mapsto> CssNum (15 / 2) ''mm'',
                   ''--body-margin'' \<mapsto> CssNum (1 / 2) ''em''],
      sheet = Map.empty,
      document = \<lparr>pages = 2, pageContent = None, pageBox = None\<rparr>,
      renders = 0\<rparr>"

text \<open>An oracle that lays everything out on one page, three quarters full.\<close>

definition onePageOracle :: layout_oracle where
  "onePageOracle = (\<lambda>vars.
     \<lparr>pages = 1,
      pageContent = Some \<lparr>scrollHeight = 750, contentTop = 0, descendantBottoms = [750]\<rparr>,
      pageBox = Some 1000\<rparr>)"

text \<open>
  A one-page document, 40 percent full, with a 9 pt body font, and an oracle for it that
  needs a second page as soon as the font is any other size.
\<close>

definition fontOracle :: layout_oracle where
  "fontOracle = (\<lambda>vars.
     if parseFloat (vars ''--body-font-size'') = Some 9 then
       \<lparr>pages = 1,
        pageContent = Some \<lparr>scrollHeight = 400, contentTop = 0, descendantBottoms = [400]\<rparr>,
        pageBox = Some 1000\<rparr>
     else \<lparr>pages = 2, pageContent = None, pageBox = None\<rparr>)"

definition sparseState :: fit_state where
  "sparseState =
     \<lparr>currentStyles = Map.empty,
      rootStyle = [''--body-font-size'' \<mapsto> CssNum 9 ''pt''],
      sheet = Map.empty,
      document =
        \<lparr>pages = 1,
         pageContent = Some \<lparr>scrollHeight = 400, contentTop = 0, descendantBottoms = [400]\<rparr>,
         pageBox = Some 1000\<rparr>,
      renders = 0\<rparr>"

definition fontStrategy :: strategy where
  "fontStrategy =
     \<lparr>name = ''fontSize'', cssVar = ''--body-font-size'', sid = ''fontSlider'',
      step = 1 / 2, unit = ''pt'', bound = 13\<rparr>"

text \<open>
  A one-page document, 85 percent full by its last descendant and 80 percent by its
  scroll height.
\<close>

definition brimState :: fit_state where
  "brimState =
     \<lparr>currentStyles = Map.empty,
      rootStyle = [''--body-font-size'' \<mapsto> CssNum 9 ''pt''],
      sheet = Map.empty,
      document =
        \<lparr>pages = 1,
         pageContent = Some \<lparr>scrollHeight = 800, contentTop = 100,
                             descendantBottoms = [400, 950]\<rparr>,
         pageBox = Some 1000\<rparr>,
      renders = 0\<rparr>"

text \<open>
  A one-page document, 40 percent full, whose body font the style sheet gives in pixels,
  9 px, and an oracle that reads the font size in either unit (a point is four thirds
  of a pixel) and fits the content on one page up to 10 px.
\<close>

definition pxOracle :: layout_oracle where
  "pxOracle = (\<lambda>vars.
     case vars ''--body-font-size'' of
       CssNum v u \<Rightarrow>
         if (if u = ''px'' then v else v * 4 / 3) \<le> 10 then
           \<lparr>pages = 1,
            pageContent = Some \<lparr>scrollHeight = 400, contentTop = 0, descendantBottoms = [400]\<rparr>,
            pageBox = Some 1000\<rparr>
         else \<lparr>pages = 2, pageContent = None, pageBox = None\<rparr>
     | CssText t \<Rightarrow> \<lparr>pages = 2, pageContent = None, pageBox = None\<rparr>)"

definition pxState :: fit_state where
  "pxState =
     \<lparr>currentStyles = Map.empty,
      rootStyle = Map.empty,
      sheet = [''--body-font-size'' \<mapsto> CssNum 9 ''px''],
      document =
        \<lparr>pages = 1,
         pageContent = Some \<lparr>scrollHeight = 400, contentTop = 0, descendantBottoms = [400]\<rparr>,
         pageBox = Some 1000\<rparr>,
      renders = 0\<rparr>"

text \<open>
  Sequences of steps. \<open>applyDelta\<close> runs one step helper and keeps the state when the
  helper reports that nothing could be changed. \<open>withinBounds\<close> says that every style
  variable that has a strategy in both orders and parses to a number lies between the
  minimum of its shrink strategy and the maximum of its expand strategy. A bound is on
  the grid when it has at most two decimals.
\<close>

datatype delta_op = ShrinkStep | ExpandStep

definition applyDelta :: "strategy list \<Rightarrow> strategy list \<Rightarrow> delta_op \<Rightarrow> fit_state \<Rightarrow> fit_state" where
  "applyDelta ss es op st =
     (case op of
        ShrinkStep \<Rightarrow> (case applyShrinkStep ss st of None \<Rightarrow> st | Some st1 \<Rightarrow> st1)
      | ExpandStep \<Rightarrow>
          (case applyExpandStep es st of None \<Rightarrow> st | Some (strat, prevVal, st1) \<Rightarrow> st1))"

definition withinBounds :: "strategy list \<Rightarrow> strategy list \<Rightarrow> fit_state \<Rightarrow> bool" where
  "withinBounds ss es st \<longleftrightarrow>
     (\<forall>s \<in> set ss. \<forall>e \<in> set es. cssVar s = cssVar e \<longrightarrow>
        (case parseFloat (computed st (cssVar s)) of
           None \<Rightarrow> True
         | Some val \<Rightarrow> bound s \<le> val \<and> val \<le> bound e))"

definition onGrid :: "real \<Rightarrow> bool" where
  "onGrid x \<longleftrightarrow> round2 x = x"

text \<open>
  A configuration is on the grid when every bound of its strategies is, and no step is
  negative.
\<close>

definition gridConfig :: "slider list \<Rightarrow> bool" where
  "gridConfig c \<longleftrightarrow>
     (\<forall>s \<in> set (shrinkStrategies c) \<union> set (expandStrategies c).
        onGrid (bound s) \<and> 0 \<le> step s)"

text \<open>
  A configuration whose page margin has the minimum 7.004, and a document with a page
  margin of 8 mm.
\<close>

definition offGridConfig :: "slider list" where
  "offGridConfig =
     [\<lparr>slider_id = ''marginSlider'', slider_min = Some (7004 / 1000), slider_max = Some 21,
        slider_step = Some 1\<rparr>]"

definition offGridState :: fit_state where
  "offGridState =
     \<lparr>currentStyles = Map.empty,
      rootStyle = [''--page-margin'' \<mapsto> CssNum 8 ''mm''],
      sheet = Map.empty,
      document = \<lparr>pages = 2, pageContent = None, pageBox = None\<rparr>,
      renders = 0\<rparr>"

section \<open>The render executor\<close>

text \<open>
  The part of the document a pass rewrites: the markup of body and head
  (\<open>innerHTML\<close>), the \<open>style#forced-page-a4\<close> element that \<open>ensureA4PageRule\<close> keeps
  in the head (\<open>None\<close> while the head has none; the margin it names is its content) and
  the classes of the body element. The baseline head is captured at load time, before
  the first pass, so assigning it to the head removes the forced rule.
\<close>

record page_dom =
  body :: string
  head :: string
  forcedPageRule :: "css_value option"
  bodyClasses :: "string list"

datatype parent_msg = READY | MsgRendering | MsgRendered | MsgRenderComplete

datatype log_entry = PagedNotFound | RenderingFailed string

text \<open>
  The renderer's \<open>state\<close> object, the document, and what the renderer has sent and
  logged: \<open>outbox\<close> lists the messages posted to \<open>window.parent\<close>, \<open>errorLog\<close> the calls
  of \<open>console.error\<close>. \<open>handshakeInterval\<close> tells whether the interval timer is armed,
  \<open>hasParent\<close> is \<open>window.parent\<close> as a truth value and \<open>pagedLoaded\<close> tells whether
  \<open>getPaged()\<close> finds the library.
\<close>

record renderer = style_state +
  originalBody :: string
  originalHead :: string
  isRendering :: bool
  pendingRenderRequest :: "styles option"
  handshakeInterval :: bool
  isHandshakeComplete :: bool
  contentLoaded :: bool
  page :: page_dom
  outbox :: "parent_msg list"
  errorLog :: "log_entry list"
  hasParent :: bool
  pagedLoaded :: bool

definition postToParent :: "parent_msg \<Rightarrow> renderer \<Rightarrow> renderer" where
  "postToParent m s = s\<lparr>outbox := outbox s @ [m]\<rparr>"

definition console_error :: "log_entry \<Rightarrow> renderer \<Rightarrow> renderer" where
  "console_error e s = s\<lparr>errorLog := errorLog s @ [e]\<rparr>"

definition ensureA4PageRule :: "renderer \<Rightarrow> renderer" where
  "ensureA4PageRule s =
     (let computedMargin =
            (case computed s ''--page-margin'' of
               CssText [] \<Rightarrow> CssNum 7 ''mm''
             | v \<Rightarrow> v)
      in s\<lparr>page := (page s)\<lparr>forcedPageRule := Some computedMargin\<rparr>\<rparr>)"

text \<open>
  The body of \<open>handlePagedRender\<close> from taking the lock to the call of
  \<open>previewer.preview()\<close>: the baseline is restored where it is a non-empty text, the
  cached styles are applied again and the page rule is set.
\<close>

definition restoreCleanDom :: "renderer \<Rightarrow> renderer" where
  "restoreCleanDom s =
     (let s1 = (if originalBody s \<noteq> [] then s\<lparr>page := (page s)\<lparr>body := originalBody s\<rparr>\<rparr>
                else s)
      in if originalHead s1 \<noteq> []
         then s1\<lparr>page := (page s1)\<lparr>head := originalHead s1, forcedPageRule := None\<rparr>\<rparr>
         else s1)"

definition beforePreview :: "renderer \<Rightarrow> renderer" where
  "beforePreview s =
     (let s1 = postToParent MsgRendering (s\<lparr>isRendering := True\<rparr>);
          s2 = restoreCleanDom s1;
          s3 = handleStyleUpdate (currentStyles s2) s2
      in ensureA4PageRule s3)"

text \<open>The rest of the \<open>try\<close> block, after the preview has returned.\<close>

definition classListAdd :: "string \<Rightarrow> string list \<Rightarrow> string list" where
  "classListAdd c cs = (if c \<in> set cs then cs else cs @ [c])"

definition afterPreview :: "renderer \<Rightarrow> renderer" where
  "afterPreview s =
     (let s1 = s\<lparr>page := (page s)
                 \<lparr>bodyClasses := classListAdd ''render-complete'' (bodyClasses (page s))\<rparr>\<rparr>
      in postToParent MsgRenderComplete (postToParent MsgRendered s1))"

text \<open>The \<open>catch\<close> block: the failure is logged and the baseline assigned to body and head.\<close>

definition catchBlock :: "string \<Rightarrow> renderer \<Rightarrow> renderer" where
  "catchBlock e s =
     (let s1 = console_error (RenderingFailed e) s
      in s1\<lparr>page := (page s1)\<lparr>body := originalBody s1, head := originalHead s1,
                              forcedPageRule := None\<rparr>\<rparr>)"

text \<open>
  \<open>handlePagedRender\<close> runs up to the point where it waits for the oracle. With the
  lock taken it only records the request. Without the library there is nothing to wait
  for, and the call runs through its \<open>finally\<close> block at once. The \<open>finally\<close> block
  releases the lock and starts the pending request, if there is one.
\<close>

function handlePagedRender :: "styles \<Rightarrow> renderer \<Rightarrow> renderer"
  and finallyBlock :: "renderer \<Rightarrow> renderer" where
  "handlePagedRender extraStyles s =
     (let s1 = s\<lparr>currentStyles := currentStyles s ++ extraStyles\<rparr>
      in if isRendering s1 then s1\<lparr>pendingRenderRequest := Some (currentStyles s1)\<rparr>
         else
           (let s2 = beforePreview s1
            in if pagedLoaded s2 then s2
               else finallyBlock (afterPreview (console_error PagedNotFound s2))))"
| "finallyBlock s =
     (let s1 = s\<lparr>isRendering := False\<rparr>
      in case pendingRenderRequest s1 of
           None \<Rightarrow> s1
         | Some nextStyles \<Rightarrow> handlePagedRender nextStyles (s1\<lparr>pendingRenderRequest := None\<rparr>))"
  by pat_completeness auto
termination
  by (relation "measure (\<lambda>x. case x of
          Inl (e, s) \<Rightarrow> (if pendingRenderRequest s = None then 1 else 3)
        | Inr s \<Rightarrow> (if pendingRenderRequest s = None then 0 else 2))")
     (auto simp: beforePreview_def afterPreview_def ensureA4PageRule_def restoreCleanDom_def
        handleStyleUpdate_def postToParent_def console_error_def Let_def)

text \<open>
  How the awaited preview ends: it returns, or it throws; either way the oracle has left
  the document in some state of its own.
\<close>

datatype preview_result = PreviewReturned page_dom | PreviewThrew string page_dom

text \<open>How a call of an \<open>async\<close> function ends for its caller.\<close>

datatype completion = Fulfilled | Rejected string

text \<open>
  The continuation of a waiting pass when its preview ends: the rest of the \<open>try\<close>
  block or the \<open>catch\<close> block, then the \<open>finally\<close> block. The second component is the
  way the call of \<open>handlePagedRender\<close> that began the pass ends; the \<open>catch\<close> block
  has no \<open>throw\<close>, so an exception of the preview never leaves the function.
\<close>

definition previewSettled :: "preview_result \<Rightarrow> renderer \<Rightarrow> renderer \<times> completion" where
  "previewSettled r s =
     (case r of
        PreviewReturned d \<Rightarrow> (finallyBlock (afterPreview (s\<lparr>page := d\<rparr>)), Fulfilled)
      | PreviewThrew e d \<Rightarrow> (finallyBlock (catchBlock e (s\<lparr>page := d\<rparr>)), Fulfilled))"

text \<open>The number of passes begun so far: each one announces itself to the host.\<close>

definition passesBegun :: "renderer \<Rightarrow> nat" where
  "passesBegun s = length (filter (\<lambda>m. m = MsgRendering) (outbox s))"

section \<open>The handshake\<close>

text \<open>
  Render context. \<open>startHandshake\<close> arms the interval timer; each firing of the armed
  timer posts \<open>READY\<close> to the parent; the \<open>ACK\<close> branch of the message handler clears
  the timer. A cleared timer does not fire, so a tick finds the renderer unchanged.
\<close>

definition startHandshake :: "renderer \<Rightarrow> renderer" where
  "startHandshake s = s\<lparr>handshakeInterval := True\<rparr>"

definition intervalTick :: "renderer \<Rightarrow> renderer" where
  "intervalTick s =
     (if handshakeInterval s then (if hasParent s then postToParent READY s else s) else s)"

definition receiveACK :: "renderer \<Rightarrow> renderer" where
  "receiveACK s =
     (let s1 = (if handshakeInterval s then s\<lparr>handshakeInterval := False\<rparr> else s)
      in s1\<lparr>isHandshakeComplete := True\<rparr>)"

text \<open>
  Host context (\<open>ResumeController\<close>). \<open>iframe\<close> tells whether the frame and its content
  window exist; \<open>posted\<close> lists what has been posted to the content window, in order.
\<close>

datatype 'c iframe_msg = ACK | Command 'c

record 'c controller =
  iframe :: bool
  isIframeReady :: bool
  messageQueue :: "'c iframe_msg list"
  posted :: "'c iframe_msg list"

definition sendMessageToIframe :: "'c iframe_msg \<Rightarrow> 'c controller \<Rightarrow> 'c controller" where
  "sendMessageToIframe data c =
     (if iframe c then
        (if isIframeReady c then c\<lparr>posted := posted c @ [data]\<rparr>
         else c\<lparr>messageQueue := messageQueue c @ [data]\<rparr>)
      else c)"

text \<open>The flush loop: \<open>shift\<close> the first queued message and post it, until none is left.\<close>

function flushQueue :: "'c controller \<Rightarrow> 'c controller" where
  "flushQueue c =
     (case messageQueue c of
        [] \<Rightarrow> c
      | data # rest \<Rightarrow> flushQueue (c\<lparr>messageQueue := rest, posted := posted c @ [data]\<rparr>))"
  by pat_completeness auto
termination
  by (relation "measure (\<lambda>c. length (messageQueue c))") auto

text \<open>
  \<open>handleViewerReady\<close>, run for every \<open>READY\<close> the host receives. \<open>initial\<close> are the
  messages \<open>sendInitialStyles\<close> sends, one per slider, through \<open>sendMessageToIframe\<close>.
  Without a frame the flush loop fails on its first message, which \<open>shift\<close> has
  already taken off the queue; \<open>handleMessage\<close> catches that, and the rest of the
  function is skipped. (The content that
  \<open>loadInitialContent\<close> fetches is sent later, by a \<open>sendMessageToIframe\<close> of its own.)
\<close>

definition handleViewerReady :: "'c iframe_msg list \<Rightarrow> 'c controller \<Rightarrow> 'c controller" where
  "handleViewerReady initial c =
     (let c1 = c\<lparr>isIframeReady := True\<rparr>;
          c2 = (if iframe c1 then c1\<lparr>posted := posted c1 @ [ACK]\<rparr> else c1)
      in if \<not> iframe c2 \<and> messageQueue c2 \<noteq> []
         then c2\<lparr>messageQueue := tl (messageQueue c2)\<rparr>
         else fold sendMessageToIframe initial (flushQueue c2))"

section \<open>The shared state store\<close>

text \<open>
  Values of the store. A \<open>Date\<close> holds its ISO text; numbers are finite. An object is
  the list of its properties in insertion order, each key once. (JavaScript lists keys
  that look like array indices before the others; nothing below depends on the order in
  which an object lists its keys.)
\<close>

datatype jsval =
    Undefined
  | Null
  | Bool bool
  | Num real
  | Str string
  | Date string
  | Arr "jsval list"
  | Obj "(string \<times> jsval) list"

type_synonym props = "(string \<times> jsval) list"

text \<open>
  \<open>JSON.parse(JSON.stringify(v))\<close>. \<open>None\<close> stands for a value that \<open>stringify\<close>
  leaves out: such a property is dropped from an object and becomes \<open>null\<close> in an
  array. A date comes back as its ISO text.
\<close>

fun json :: "jsval \<Rightarrow> jsval option"
  and json_elems :: "jsval list \<Rightarrow> jsval list"
  and json_props :: "props \<Rightarrow> props" where
  "json Undefined = None"
| "json Null = Some Null"
| "json (Bool b) = Some (Bool b)"
| "json (Num r) = Some (Num r)"
| "json (Str t) = Some (Str t)"
| "json (Date t) = Some (Str t)"
| "json (Arr xs) = Some (Arr (json_elems xs))"
| "json (Obj kvs) = Some (Obj (json_props kvs))"
| "json_elems [] = []"
| "json_elems (x # xs) = (case json x of None \<Rightarrow> Null | Some y \<Rightarrow> y) # json_elems xs"
| "json_props [] = []"
| "json_props ((k, v) # kvs) =
     (case json v of None \<Rightarrow> json_props kvs | Some y \<Rightarrow> (k, y) # json_props kvs)"

definition getProp :: "props \<Rightarrow> string \<Rightarrow> jsval" where
  "getProp kvs k = (case map_of kvs k of Some v \<Rightarrow> v | None \<Rightarrow> Undefined)"

text \<open>Reading a property of a value that is neither \<open>null\<close> nor \<open>undefined\<close>.\<close>

definition getMember :: "jsval \<Rightarrow> string \<Rightarrow> jsval" where
  "getMember v k = (case v of Obj kvs \<Rightarrow> getProp kvs k | _ \<Rightarrow> Undefined)"

fun set_prop :: "string \<Rightarrow> jsval \<Rightarrow> props \<Rightarrow> props" where
  "set_prop k v [] = [(k, v)]"
| "set_prop k v ((k', v') # kvs) =
     (if k' = k then (k, v) # kvs else (k', v') # set_prop k v kvs)"

text \<open>\<open>Object.assign(target, source)\<close> on property lists.\<close>

definition assign :: "props \<Rightarrow> props \<Rightarrow> props" where
  "assign target source = fold (\<lambda>(k, v). set_prop k v) source target"

fun string_of_nat :: "nat \<Rightarrow> string" where
  "string_of_nat n =
     (if n < 10 then [char_of (48 + n)]
      else string_of_nat (n div 10) @ [char_of (48 + n mod 10)])"

text \<open>
  The own enumerable properties a spread \<open>...v\<close> copies: those of an object, the
  indexed elements of an array, the indexed characters of a string, none otherwise.
\<close>

definition own_props :: "jsval \<Rightarrow> props" where
  "own_props v =
     (case v of
        Obj kvs \<Rightarrow> kvs
      | Arr xs \<Rightarrow> map (\<lambda>i. (string_of_nat i, xs ! i)) [0..<length xs]
      | Str t \<Rightarrow> map (\<lambda>i. (string_of_nat i, Str [t ! i])) [0..<length t]
      | _ \<Rightarrow> [])"

text \<open>The object literal \<open>{ ...a, ...b }\<close>.\<close>

definition spread2 :: "jsval \<Rightarrow> jsval \<Rightarrow> props" where
  "spread2 a b = assign (assign [] (own_props a)) (own_props b)"

text \<open>An action: the three properties the store and its middleware read.\<close>

record action =
  atype :: jsval
  payload :: jsval
  meta :: jsval

datatype js_error = TypeError

definition getInitialState :: props where
  "getInitialState =
     [(''content'', Obj [(''markdown'', Str []), (''html'', Str []),
                        (''lastModified'', Null), (''source'', Null)]),
      (''styles'', Obj [(''fontSize'', Num 16), (''lineHeight'', Num (16 / 10)),
                       (''margins'', Obj [(''top'', Num 20), (''bottom'', Num 20),
                                          (''left'', Num 20), (''right'', Num 20)]),
                       (''fontFamily'', Str ''Arial, sans-serif'')]),
      (''pagedjs'', Obj [(''isReady'', Bool False), (''isRendering'', Bool False),
                        (''lastRenderTime'', Null), (''pageCount'', Num 0),
                        (''renderQueue'', Arr []), (''error'', Null)]),
      (''ui'', Obj [(''debugMode'', Bool False), (''previewMode'', Str ''web''),
                   (''showPageNumbers'', Bool True), (''loading'', Bool False)])]"

text \<open>
  The reducer. \<open>now\<close> is the date \<open>new Date()\<close> returns. Destructuring the payload
  (\<open>SET_STYLES\<close>) and reading a property of it (\<open>SET_CURRENT_FILE\<close>) throw a
  \<open>TypeError\<close> when the payload is \<open>undefined\<close> or \<open>null\<close>.
\<close>

definition reducer :: "string \<Rightarrow> props \<Rightarrow> action \<Rightarrow> js_error + props" where
  "reducer now state a =
     (let newState = json_props state in
      if atype a = Str ''SET_CONTENT'' then
        Inr (set_prop ''content''
               (Obj (set_prop ''lastModified'' (Date now)
                       (spread2 (getProp newState ''content'') (payload a))))
               newState)
      else if atype a = Str ''SET_STYLES'' then
        (if payload a = Undefined \<or> payload a = Null then Inl TypeError
         else
           (let styles = filter (\<lambda>(k, v). k \<noteq> ''source'') (own_props (payload a))
            in Inr (set_prop ''styles''
                      (Obj (spread2 (getProp newState ''styles'') (Obj styles))) newState)))
      else if atype a = Str ''UPDATE_STYLES'' then
        Inr (set_prop ''styles''
               (Obj (spread2 (getProp newState ''styles'') (payload a))) newState)
      else if atype a = Str ''SET_LOADING_STATE'' then
        Inr (set_prop ''ui'' (Obj (spread2 (getProp newState ''ui'') (payload a))) newState)
      else if atype a = Str ''SET_CURRENT_FILE'' then
        (if payload a = Undefined \<or> payload a = Null then Inl TypeError
         else
           Inr (set_prop ''files''
                  (Obj (set_prop ''currentFilePath'' (getMember (payload a) ''filePath'')
                       (set_prop ''currentFileName'' (getMember (payload a) ''fileName'')
                       (set_prop ''currentFileId'' (getMember (payload a) ''fileId'')
                          (assign [] (own_props (getProp newState ''files'')))))))
                  newState))
      else if atype a = Str ''PAGEDJS_STATE_CHANGE'' then
        Inr (set_prop ''pagedjs''
               (Obj (spread2 (getProp newState ''pagedjs'') (payload a))) newState)
      else if atype a = Str ''UI_STATE_CHANGE'' then
        Inr (set_prop ''ui'' (Obj (spread2 (getProp newState ''ui'') (payload a))) newState)
      else if atype a = Str ''RESET_STATE'' then
        (let preservedSettings =
               [(''styles'', getProp newState ''styles''),
                (''ui'', Obj (set_prop ''loading'' (Bool False)
                                (assign [] (own_props (getProp newState ''ui'')))))]
         in Inr (assign (assign newState getInitialState) preservedSettings))
      else Inr newState)"

text \<open>
  A subscriber is known to the store by its identity and by whether a call of it
  returns (\<open>None\<close>) or throws (\<open>Some\<close> of what it throws). A middleware throws, or
  it returns the action to go on with, or \<open>None\<close> for a result that counts as false.
\<close>

record subscriber =
  cb_id :: nat
  cb_run :: "action \<Rightarrow> props \<Rightarrow> props \<Rightarrow> string option"

type_synonym middleware = "action \<Rightarrow> props \<Rightarrow> js_error + action option"

record history_entry =
  h_action :: action
  h_timestamp :: string
  h_oldState :: props
  h_newState :: props

text \<open>\<open>listeners\<close> is the \<open>Map\<close> from topic to callbacks, in insertion order.\<close>

record store =
  state :: props
  listeners :: "(string \<times> subscriber list) list"
  middleware :: "middleware list"
  history :: "history_entry list"

definition getState :: "store \<Rightarrow> props" where
  "getState st = json_props (state st)"

fun push_callback :: "string \<Rightarrow> subscriber \<Rightarrow> (string \<times> subscriber list) list
    \<Rightarrow> (string \<times> subscriber list) list" where
  "push_callback key cb [] = [(key, [cb])]"
| "push_callback key cb ((k, cbs) # ls) =
     (if k = key then (k, cbs @ [cb]) # ls else (k, cbs) # push_callback key cb ls)"

definition subscribe :: "string \<Rightarrow> subscriber \<Rightarrow> store \<Rightarrow> store" where
  "subscribe key cb st = st\<lparr>listeners := push_callback key cb (listeners st)\<rparr>"

text \<open>
  The function \<open>subscribe\<close> returns: it removes the first occurrence of the callback
  from the callbacks of its topic.
\<close>

fun remove_callback :: "nat \<Rightarrow> subscriber list \<Rightarrow> subscriber list" where
  "remove_callback i [] = []"
| "remove_callback i (cb # cbs) = (if cb_id cb = i then cbs else cb # remove_callback i cbs)"

definition unsubscribe :: "string \<Rightarrow> nat \<Rightarrow> store \<Rightarrow> store" where
  "unsubscribe key i st =
     st\<lparr>listeners :=
          map (\<lambda>(k, cbs). if k = key then (k, remove_callback i cbs) else (k, cbs))
            (listeners st)\<rparr>"

text \<open>What happens during a notification: a callback is called, an exception is logged.\<close>

datatype notification = Invoked string nat | ErrorLogged string string

definition notifyCallback ::
  "action \<Rightarrow> props \<Rightarrow> props \<Rightarrow> string \<Rightarrow> subscriber \<Rightarrow> notification list" where
  "notifyCallback a oldState newState key cb =
     Invoked key (cb_id cb) #
       (case cb_run cb a oldState newState of
          None \<Rightarrow> []
        | Some e \<Rightarrow> [ErrorLogged key e])"

definition notifyListeners ::
  "(string \<times> subscriber list) list \<Rightarrow> action \<Rightarrow> props \<Rightarrow> props \<Rightarrow> notification list" where
  "notifyListeners ls a oldState newState =
     concat (map (\<lambda>(key, callbacks).
        concat (map (notifyCallback a oldState newState key) callbacks)) ls)"

fun runMiddleware :: "middleware list \<Rightarrow> action \<Rightarrow> props \<Rightarrow> js_error + action" where
  "runMiddleware [] processedAction oldState = Inr processedAction"
| "runMiddleware (m # ms) processedAction oldState =
     (case m processedAction oldState of
        Inl e \<Rightarrow> Inl e
      | Inr None \<Rightarrow> runMiddleware ms processedAction oldState
      | Inr (Some result) \<Rightarrow> runMiddleware ms result oldState)"

text \<open>
  \<open>dispatch\<close> returns the store, what the notification did and the new state; an
  exception of a middleware or of the reducer leaves \<open>dispatch\<close> before anything is
  stored.
\<close>

definition dispatch ::
  "string \<Rightarrow> action \<Rightarrow> store \<Rightarrow> js_error + (store \<times> notification list \<times> props)" where
  "dispatch now a st =
     (let oldState = getState st
      in case runMiddleware (middleware st) a oldState of
           Inl e \<Rightarrow> Inl e
         | Inr processedAction \<Rightarrow>
             (case reducer now oldState processedAction of
                Inl e \<Rightarrow> Inl e
              | Inr newState \<Rightarrow>
                  (let h = history st @
                         [\<lparr>h_action = processedAction, h_timestamp = now,
                           h_oldState = oldState, h_newState = newState\<rparr>];
                       h1 = (if length h > 50 then tl h else h);
                       st1 = st\<lparr>state := newState, history := h1\<rparr>
                   in Inr (st1,
                           notifyListeners (listeners st1) processedAction oldState newState,
                           newState))))"

definition knownActionTypes :: "string list" where
  "knownActionTypes =
     [''SET_CONTENT'', ''SET_STYLES'', ''UPDATE_STYLES'', ''SET_LOADING_STATE'',
      ''SET_CURRENT_FILE'', ''PAGEDJS_STATE_CHANGE'', ''UI_STATE_CHANGE'', ''RESET_STATE'']"

section \<open>The render task queue\<close>

text \<open>
  The \<open>pagedjs\<close> slice of the store as the task processor uses it, with typed fields:
  a \<open>PAGEDJS_STATE_CHANGE\<close> merges its payload into the slice, which is written below
  as an update of the fields the payload names. \<open>pj_error\<close> is \<open>Null\<close> when there is no
  error.
\<close>

record 'p renderTask =
  task_id :: string
  reason :: string
  timestamp :: int
  priority :: real
  task_payload :: 'p

record 'p pagedjs =
  pj_isRendering :: bool
  pj_renderQueue :: "'p renderTask list"
  pj_lastRenderTime :: "string option"
  pj_error :: jsval

text \<open>\<open>processingTimeout\<close> is the time at which the armed debounce timer fires.\<close>

record processor =
  isProcessing :: bool
  processingTimeout :: "nat option"

text \<open>
  \<open>priorities[actionType] || 5\<close>. The object literal has three keys of its own. A key
  that it inherits from \<open>Object.prototype\<close> yields the inherited member, a function or
  an object, which counts as true and is returned: the result is then not a number
  (\<open>None\<close>). Every other key yields 5.
\<close>

definition objectPrototypeKeys :: "string list" where
  "objectPrototypeKeys =
     [''constructor'', ''hasOwnProperty'', ''isPrototypeOf'', ''propertyIsEnumerable'',
      ''toLocaleString'', ''toString'', ''valueOf'', ''__proto__'',
      ''__defineGetter__'', ''__defineSetter__'', ''__lookupGetter__'', ''__lookupSetter__'']"

definition getRenderPriority :: "string \<Rightarrow> real option" where
  "getRenderPriority actionType =
     (if actionType = ''SET_CONTENT'' then Some 1
      else if actionType = ''UPDATE_STYLES'' then Some 2
      else if actionType = ''UI_STATE_CHANGE'' then Some 3
      else if actionType \<in> set objectPrototypeKeys then None
      else Some 5)"

text \<open>Whether a value counts as true in a condition.\<close>

definition truthy :: "jsval \<Rightarrow> bool" where
  "truthy v =
     (case v of
        Undefined \<Rightarrow> False
      | Null \<Rightarrow> False
      | Bool b \<Rightarrow> b
      | Num r \<Rightarrow> r \<noteq> 0
      | Str t \<Rightarrow> t \<noteq> []
      | _ \<Rightarrow> True)"

definition renderTriggerActions :: "string list" where
  "renderTriggerActions = [''SET_CONTENT'', ''UPDATE_STYLES'']"

text \<open>
  \<open>currentQueue.some(...)\<close>: is there a queued task with the reason \<open>ty\<close> that is less
  than a second old? \<open>recent\<close> tells it from the timestamp of the task; reading the
  reason of a task that is \<open>null\<close> or \<open>undefined\<close> throws.
\<close>

fun hasSimilarTask :: "jsval \<Rightarrow> (jsval \<Rightarrow> bool) \<Rightarrow> jsval list \<Rightarrow> js_error + bool" where
  "hasSimilarTask ty recent [] = Inr False"
| "hasSimilarTask ty recent (task # tasks) =
     (if task = Undefined \<or> task = Null then Inl TypeError
      else if getMember task ''reason'' = ty \<and> recent (getMember task ''timestamp'')
      then Inr True
      else hasSimilarTask ty recent tasks)"

text \<open>The action with \<open>meta\<close> extended by \<open>triggersRender\<close> and the render task.\<close>

definition withRenderTask :: "action \<Rightarrow> jsval \<Rightarrow> action" where
  "withRenderTask a task =
     a\<lparr>meta := Obj (set_prop ''renderTask'' task
                      (set_prop ''triggersRender'' (Bool True)
                         (assign [] (own_props (meta a)))))\<rparr>"

text \<open>
  The middleware that \<open>createPagedJsMiddleware\<close> returns. \<open>newId\<close> is the identifier it
  makes up for the task and \<open>now\<close> the date of the call; the clock is read through
  \<open>recent\<close>. The priority is asked for one of the two trigger types only, for which
  it is a number.
\<close>

definition pagedJsMiddleware :: "string \<Rightarrow> string \<Rightarrow> (jsval \<Rightarrow> bool) \<Rightarrow> middleware" where
  "pagedJsMiddleware newId now recent a s =
     (let afterTrigger =
            (if atype a = Str ''PAGEDJS_STATE_CHANGE'' \<and> truthy (payload a) \<and>
                truthy (getMember (payload a) ''addRenderTask'')
             then Inr (Some (withRenderTask a (getMember (payload a) ''addRenderTask'')))
             else Inr (Some a))
      in if atype a \<in> Str ` set renderTriggerActions then
           (let renderTask =
                  Obj [(''id'', Str newId), (''reason'', atype a), (''timestamp'', Date now),
                       (''priority'',
                          (case atype a of
                             Str t \<Rightarrow> (case getRenderPriority t of
                                         Some r \<Rightarrow> Num r
                                       | None \<Rightarrow> Undefined)
                           | _ \<Rightarrow> Num 5)),
                       (''payload'', payload a)];
                pj = getProp s ''pagedjs''
            in if pj = Undefined \<or> pj = Null then Inl TypeError
               else
                 (let rq = getMember pj ''renderQueue''
                  in case (if truthy rq then rq else Arr []) of
                       Arr currentQueue \<Rightarrow>
                         (case hasSimilarTask (atype a) recent currentQueue of
                            Inl e \<Rightarrow> Inl e
                          | Inr similar \<Rightarrow>
                              if \<not> similar then Inr (Some (withRenderTask a renderTask))
                              else afterTrigger)
                     | _ \<Rightarrow> Inl TypeError))
         else afterTrigger)"

definition addTaskToQueue :: "'p renderTask \<Rightarrow> 'p pagedjs \<Rightarrow> 'p pagedjs" where
  "addTaskToQueue task pj = pj\<lparr>pj_renderQueue := pj_renderQueue pj @ [task]\<rparr>"

definition scheduleProcessing :: "nat \<Rightarrow> processor \<Rightarrow> processor" where
  "scheduleProcessing now p = p\<lparr>processingTimeout := Some (now + 300)\<rparr>"

text \<open>
  What \<open>executeRenderTask\<close> passes to \<open>pagedJsManager.performUpdate\<close>: the reason, the
  identifier and the priority of one task.
\<close>

record render_request =
  req_reason :: string
  req_taskId :: string
  req_priority :: real

text \<open>
  What \<open>performUpdate\<close> may throw: \<open>null\<close> or \<open>undefined\<close>, of which no property can be
  read, or any other value, given by what reading its \<open>message\<close> yields (\<open>Undefined\<close> when
  it has none).
\<close>

datatype thrown = ThrownNullish | ThrownValue jsval

text \<open>
  The manager is \<open>None\<close> while \<open>window.pagedJsManager\<close> is not ready (the processor then
  only waits 100 ms); otherwise it tells for a request whether \<open>performUpdate\<close> returns
  (\<open>None\<close>) or throws, and what.
\<close>

type_synonym manager = "(render_request \<Rightarrow> thrown option) option"

definition executeRenderTask ::
  "manager \<Rightarrow> 'p renderTask \<Rightarrow> render_request list \<times> thrown option" where
  "executeRenderTask mgr task =
     (case mgr of
        None \<Rightarrow> ([], None)
      | Some performUpdate \<Rightarrow>
          (let r = \<lparr>req_reason = reason task, req_taskId = task_id task,
                    req_priority = priority task\<rparr>
           in ([r], performUpdate r)))"

text \<open>
  The text stored when the thrown value has no message, or one that counts as false
  (the source has a Chinese text of this meaning).
\<close>

definition defaultRenderError :: string where
  "defaultRenderError = ''render failed''"

text \<open>
  \<open>processQueue\<close>, what the debounce timer runs. It returns the processor, the slice,
  the requests handed to the executor, and the error with which the call rejects, if
  it does. The queue is sorted by priority (the sort is stable) and the first task of
  the sorted queue is the one executed. The \<open>catch\<close> block reads the \<open>message\<close> of what
  was thrown: when that is \<open>null\<close> or \<open>undefined\<close> the block throws itself before it
  dispatches, so the slice stays as the \<open>try\<close> block marked it. The \<open>finally\<close> block
  runs in every case.
\<close>

definition processQueue ::
  "manager \<Rightarrow> string \<Rightarrow> processor \<Rightarrow> 'p pagedjs
     \<Rightarrow> processor \<times> 'p pagedjs \<times> render_request list \<times> js_error option" where
  "processQueue mgr now p pj =
     (if isProcessing p \<or> pj_isRendering pj \<or> length (pj_renderQueue pj) = 0
      then (p, pj, [], None)
      else
        (let pj1 = pj\<lparr>pj_isRendering := True, pj_error := Null\<rparr>;
             queue = sort_key priority (pj_renderQueue pj);
             nextTask = hd queue;
             (calls, thrown) = executeRenderTask mgr nextTask;
             p1 = p\<lparr>isProcessing := False\<rparr>
         in case thrown of
              None \<Rightarrow>
                (p1,
                 pj1\<lparr>pj_isRendering := False, pj_lastRenderTime := Some now,
                     pj_renderQueue := [], pj_error := Null\<rparr>,
                 calls, None)
            | Some error \<Rightarrow>
                (case error of
                   ThrownNullish \<Rightarrow> (p1, pj1, calls, Some TypeError)
                 | ThrownValue msg \<Rightarrow>
                     (p1,
                      pj1\<lparr>pj_isRendering := False,
                          pj_error := (if truthy msg then msg
                                       else Str defaultRenderError)\<rparr>,
                      calls, None))))"

text \<open>
  A renderer just loaded, inside a frame, and a controller whose frame has loaded but
  has not been heard from yet.
\<close>

definition emptyPage :: page_dom where
  "emptyPage = \<lparr>body = [], head = [], forcedPageRule = None, bodyClasses = []\<rparr>"

definition loadedRenderer :: renderer where
  "loadedRenderer =
     \<lparr>currentStyles = Map.empty, rootStyle = Map.empty, sheet = Map.empty,
      originalBody = ''<div id=content></div>'', originalHead = ''<title>Resume</title>'',
      isRendering = False, pendingRenderRequest = None,
      handshakeInterval = False, isHandshakeComplete = False, contentLoaded = False,
      page = \<lparr>body = ''<div id=content></div>'', head = ''<title>Resume</title>'',
               forcedPageRule = None, bodyClasses = []\<rparr>,
      outbox = [], errorLog = [], hasParent = True, pagedLoaded = True\<rparr>"

definition waitingController :: "string controller" where
  "waitingController =
     \<lparr>iframe = True, isIframeReady = False, messageQueue = [], posted = []\<rparr>"

text \<open>A renderer in the middle of a pass, waiting for the preview.\<close>

definition busyRenderer :: renderer where
  "busyRenderer = loadedRenderer\<lparr>isRendering := True, outbox := [MsgRendering]\<rparr>"

text \<open>Reading the result of a \<open>dispatch\<close>.\<close>

definition notified :: "js_error + (store \<times> notification list \<times> props) \<Rightarrow> notification list" where
  "notified r = (case r of Inl e \<Rightarrow> [] | Inr (st, ns, newState) \<Rightarrow> ns)"

definition storeAfter :: "store \<Rightarrow> js_error + (store \<times> notification list \<times> props) \<Rightarrow> store" where
  "storeAfter st r = (case r of Inl e \<Rightarrow> st | Inr (st1, ns, newState) \<Rightarrow> st1)"

fun isInvoked :: "notification \<Rightarrow> bool" where
  "isInvoked (Invoked key i) = True"
| "isInvoked (ErrorLogged key e) = False"

text \<open>Every callback of every topic, in the order of the \<open>Map\<close> and of registration.\<close>

definition allCallbacks :: "(string \<times> subscriber list) list \<Rightarrow> notification list" where
  "allCallbacks ls = concat (map (\<lambda>(key, callbacks). map (\<lambda>cb. Invoked key (cb_id cb)) callbacks) ls)"

text \<open>The exceptions of the callbacks, in the same order.\<close>

definition allErrors ::
  "(string \<times> subscriber list) list \<Rightarrow> action \<Rightarrow> props \<Rightarrow> props \<Rightarrow> notification list" where
  "allErrors ls a oldState newState =
     concat (map (\<lambda>(key, callbacks).
       concat (map (\<lambda>cb. case cb_run cb a oldState newState of
                            None \<Rightarrow> []
                          | Some e \<Rightarrow> [ErrorLogged key e]) callbacks)) ls)"

definition unknownType :: "action \<Rightarrow> bool" where
  "unknownType a \<longleftrightarrow> atype a \<notin> Str ` set knownActionTypes"

text \<open>
  A middleware passes actions of unknown type on: given such an action it does not
  throw, and the action it returns, if any, has the same type.
\<close>

definition passesUnknown :: "middleware \<Rightarrow> bool" where
  "passesUnknown m \<longleftrightarrow>
     (\<forall>a s. unknownType a \<longrightarrow>
        (case m a s of
           Inl e \<Rightarrow> False
         | Inr None \<Rightarrow> True
         | Inr (Some r) \<Rightarrow> atype r = atype a))"

definition typePreserving :: "middleware list \<Rightarrow> bool" where
  "typePreserving ms \<longleftrightarrow> (\<forall>m \<in> set ms. passesUnknown m)"

definition returned :: "js_error + (store \<times> notification list \<times> props) \<Rightarrow> props option" where
  "returned r = (case r of Inl e \<Rightarrow> None | Inr (st, ns, newState) \<Rightarrow> Some newState)"

text \<open>The entry that \<open>dispatch\<close> appends to the history.\<close>

definition historyEntry :: "string \<Rightarrow> action \<Rightarrow> store \<Rightarrow> props \<Rightarrow> history_entry" where
  "historyEntry now processedAction st newState =
     \<lparr>h_action = processedAction, h_timestamp = now,
      h_oldState = getState st, h_newState = newState\<rparr>"

text \<open>
  The state a new \<open>ResumeStateManager\<close> starts with, a store with one subscriber under
  the topic \<open>content\<close> and one, which throws, under the topic \<open>styles\<close>, the Paged.js
  middleware attached, and two actions.
\<close>

definition constructorState :: props where
  "constructorState =
     [(''content'', Obj [(''markdown'', Str []), (''html'', Str []),
                        (''lastModified'', Null), (''source'', Null)]),
      (''styles'', Obj [(''fontSize'', Num 16), (''lineHeight'', Num (16 / 10)),
                       (''margins'', Obj [(''top'', Num 20), (''bottom'', Num 20),
                                          (''left'', Num 20), (''right'', Num 20)]),
                       (''fontFamily'', Str ''Arial, sans-serif'')]),
      (''pagedjs'', Obj [(''isReady'', Bool False), (''isRendering'', Bool False),
                        (''lastRenderTime'', Null), (''pageCount'', Num 0),
                        (''renderQueue'', Arr []), (''error'', Null)]),
      (''ui'', Obj [(''debugMode'', Bool False), (''previewMode'', Str ''web''),
                   (''showPageNumbers'', Bool True), (''loading'', Bool False),
                   (''isLoading'', Bool False), (''operation'', Null),
                   (''lastLoadedFile'', Null), (''error'', Null)]),
      (''files'', Obj [(''currentFileId'', Null), (''currentFileName'', Null),
                      (''currentFilePath'', Null), (''availableFiles'', Arr [])])]"

definition exampleTime :: string where
  "exampleTime = ''2026-01-15T09:30:00.000Z''"

definition quietSubscriber :: subscriber where
  "quietSubscriber = \<lparr>cb_id = 1, cb_run = (\<lambda>a oldState newState. None)\<rparr>"

definition throwingSubscriber :: subscriber where
  "throwingSubscriber = \<lparr>cb_id = 2, cb_run = (\<lambda>a oldState newState. Some ''listener failed'')\<rparr>"

definition twoTopicStore :: store where
  "twoTopicStore =
     subscribe ''content'' quietSubscriber
       (subscribe ''styles'' throwingSubscriber
          \<lparr>state = constructorState, listeners = [],
           middleware = [pagedJsMiddleware ''render_1'' exampleTime (\<lambda>t. False)],
           history = []\<rparr>)"

definition updateStylesAction :: action where
  "updateStylesAction =
     \<lparr>atype = Str ''UPDATE_STYLES'', payload = Obj [(''fontSize'', Num 11)],
      meta = Undefined\<rparr>"

definition unknownAction :: action where
  "unknownAction = \<lparr>atype = Str ''TOGGLE_SIDEBAR'', payload = Undefined, meta = Undefined\<rparr>"

text \<open>Reading the result of \<open>processQueue\<close>.\<close>

definition processorAfter ::
  "processor \<times> 'p pagedjs \<times> render_request list \<times> js_error option \<Rightarrow> processor" where
  "processorAfter r = fst r"

definition sliceAfter ::
  "processor \<times> 'p pagedjs \<times> render_request list \<times> js_error option \<Rightarrow> 'p pagedjs" where
  "sliceAfter r = fst (snd r)"

definition handed ::
  "processor \<times> 'p pagedjs \<times> render_request list \<times> js_error option
     \<Rightarrow> render_request list" where
  "handed r = fst (snd (snd r))"

definition rejection ::
  "processor \<times> 'p pagedjs \<times> render_request list \<times> js_error option
     \<Rightarrow> js_error option" where
  "rejection r = snd (snd (snd r))"

text \<open>
  A manager that renders whatever it is asked to, one that throws an error with a
  message, one that rejects without a reason, and a queue of two tasks: a style update
  queued first and a content change queued after it.
\<close>

definition acceptingManager :: manager where
  "acceptingManager = Some (\<lambda>r. None)"

definition failingManager :: manager where
  "failingManager = Some (\<lambda>r. Some (ThrownValue (Str ''layout failed'')))"

definition rejectingManager :: manager where
  "rejectingManager = Some (\<lambda>r. Some ThrownNullish)"

definition stylesTask :: "string renderTask" where
  "stylesTask =
     \<lparr>task_id = ''render_1'', reason = ''UPDATE_STYLES'', timestamp = 1000,
      priority = the (getRenderPriority ''UPDATE_STYLES''), task_payload = ''fontSize: 11''\<rparr>"

definition contentTask :: "string renderTask" where
  "contentTask =
     \<lparr>task_id = ''render_2'', reason = ''SET_CONTENT'', timestamp = 1100,
      priority = the (getRenderPriority ''SET_CONTENT''), task_payload = ''# Resume''\<rparr>"

definition idleProcessor :: processor where
  "idleProcessor = \<lparr>isProcessing = False, processingTimeout = Some 1400\<rparr>"

definition queuedSlice :: "string pagedjs" where
  "queuedSlice =
     \<lparr>pj_isRendering = False, pj_renderQueue = [stylesTask, contentTask],
      pj_lastRenderTime = None, pj_error = Null\<rparr>"

section \<open>Properties of the auto-fit search\<close>

subsection \<open>Rounding and style bookkeeping\<close>

lemma round2_mono: "x \<le> y \<Longrightarrow> round2 x \<le> round2 y"
  unfolding round2_def by (intro divide_right_mono of_int_le_iff[THEN iffD2] floor_mono) auto

lemma map_add_idem [simp]: "(m :: 'a \<rightharpoonup> 'b) ++ m = m"
  by (rule ext) (simp add: map_add_def split: option.splits)

lemma map_add_twice [simp]: "((a :: 'a \<rightharpoonup> 'b) ++ m) ++ m = a ++ m"
  by (rule ext) (simp add: map_add_def split: option.splits)

lemma setProperties_empty [simp]: "setProperties Map.empty r = r"
  by (rule ext) (simp add: setProperties_def)

lemma setProperties_idem [simp]:
  "setProperties m (setProperties m r) = setProperties m r"
  by (rule ext) (simp add: setProperties_def split: option.splits)

lemma setProperties_add [simp]:
  "setProperties (a ++ m) (setProperties m r) = setProperties (a ++ m) r"
  by (rule ext) (simp add: setProperties_def map_add_def split: option.splits)

lemma computed_more_update [simp]:
  "computed (st\<lparr>document := d\<rparr>) = computed st"
  "computed (st\<lparr>renders := r\<rparr>) = computed st"
  by (rule ext, simp add: computed_def split: option.splits)+

lemma renders_handleStyleUpdate [simp]: "renders (handleStyleUpdate u st) = renders st"
  by (simp add: handleStyleUpdate_def setProperties_def)

lemma renders_renderAndCount [simp]: "renders (renderAndCount orc st) = renders st + 1"
  by (simp add: renderAndCount_def Let_def)

lemma document_renderAndCount:
  "document (renderAndCount orc st) = orc (computed (renderAndCount orc st))"
  by (simp add: renderAndCount_def Let_def)

lemma settled_renderAndCount: "settled orc (renderAndCount orc st)"
  by (simp add: settled_def document_renderAndCount)
     (simp add: renderAndCount_def handleStyleUpdate_def Let_def)

subsection \<open>Direction selection\<close>

lemma isSparse_checkContentFill:
  "isSparse (checkContentFill m) =
     (case pageContent m of
        None \<Rightarrow> False
      | Some pc \<Rightarrow>
          (case pageBox m of
             None \<Rightarrow> False
           | Some a \<Rightarrow>
               (let h = (if descendantBottoms pc \<noteq> []
                         then last (descendantBottoms pc) - contentTop pc
                         else scrollHeight pc)
                in if a = 0 then h < 0 else h / a < 85 / 100)))"
  by (simp add: checkContentFill_def actualContentHeight_def js_div_def Let_def
      split: option.splits)

text \<open>
  Claim C5. The direction of an auto-fit run is decided by what the document shows
  when the run starts: shrink when there is more than one page; expand when there is
  exactly one page and the fill ratio is below 0.85; none otherwise. The fill ratio is
  the content height divided by the client height of the page box, where the content
  height is the distance from the top of the page content to the bottom of its last
  descendant, or the scroll height of the page content when it has no descendant. The
  ratio compared is the exact quotient, not the two-decimal value the result reports
  (with a height of 0 to divide by, the quotient is below 0.85 only when the content
  height is negative), and a document without page content or page box counts as full.
\<close>

theorem C5_direction_selection:
  "direction (snd (fitToOnePage sliderCfg orc st)) =
     (if pages (document st) > 1 then Shrink
      else if pages (document st) = 1 \<and>
              (case pageContent (document st) of
                 None \<Rightarrow> False
               | Some pc \<Rightarrow>
                   (case pageBox (document st) of
                      None \<Rightarrow> False
                    | Some a \<Rightarrow>
                        (let h = (if descendantBottoms pc \<noteq> []
                                  then last (descendantBottoms pc) - contentTop pc
                                  else scrollHeight pc)
                         in if a = 0 then h < 0 else h / a < 85 / 100)))
      then Expand
      else NoDirection)"
  by (simp add: fitToOnePage_def initial_direction_def isSparse_checkContentFill
      split: prod.splits)

theorem C5_direction_selection_witness:
  "direction (snd (fitToOnePage sliderConfig onePageOracle halfStepState)) = Shrink \<and>
   direction (snd (fitToOnePage sliderConfig fontOracle sparseState)) = Expand \<and>
   direction (snd (fitToOnePage sliderConfig onePageOracle brimState)) = NoDirection"
proof -
  from C5_direction_selection [of sliderConfig onePageOracle halfStepState]
  have a: "direction (snd (fitToOnePage sliderConfig onePageOracle halfStepState)) = Shrink"
    by (simp add: halfStepState_def)
  from C5_direction_selection [of sliderConfig fontOracle sparseState]
  have b: "direction (snd (fitToOnePage sliderConfig fontOracle sparseState)) = Expand"
    by (simp add: sparseState_def)
  from C5_direction_selection [of sliderConfig onePageOracle brimState]
  have c: "direction (snd (fitToOnePage sliderConfig onePageOracle brimState)) = NoDirection"
    by (simp add: brimState_def)
  from a b c show ?thesis by simp
qed

subsection \<open>The shrink loop\<close>

lemma applyShrinkStep_None:
  "applyShrinkStep ss st = None \<longleftrightarrow> (\<forall>s \<in> set ss. \<not> shrinkHeadroom st s)"
  by (induction ss) (auto simp: shrinkHeadroom_def Let_def split: option.splits)

lemma applyShrinkStep_Some:
  "applyShrinkStep ss st = Some st1 \<Longrightarrow>
     \<exists>pre s post. ss = pre @ s # post \<and> (\<forall>t \<in> set pre. \<not> shrinkHeadroom st t) \<and>
        shrinkHeadroom st s \<and> st1 = shrinkTo st s"
proof (induction ss)
  case Nil
  then show ?case by simp
next
  case (Cons a ss)
  show ?case
  proof (cases "shrinkHeadroom st a")
    case True
    with Cons.prems have "st1 = shrinkTo st a"
      by (auto simp: shrinkHeadroom_def shrinkTo_def Let_def split: option.splits)
    with True show ?thesis by (intro exI[of _ "[]"] exI[of _ a] exI[of _ ss]) simp
  next
    case False
    with Cons.prems have "applyShrinkStep ss st = Some st1"
      by (auto simp: shrinkHeadroom_def split: option.splits if_splits)
    from Cons.IH[OF this] obtain pre s post where
      "ss = pre @ s # post" "\<forall>t \<in> set pre. \<not> shrinkHeadroom st t"
      "shrinkHeadroom st s" "st1 = shrinkTo st s" by blast
    with False show ?thesis
      by (intro exI[of _ "a # pre"] exI[of _ s] exI[of _ post]) simp
  qed
qed

lemma renders_applyShrinkStep: "applyShrinkStep ss st = Some st1 \<Longrightarrow> renders st1 = renders st"
  by (induction ss) (auto simp: Let_def split: option.splits if_splits)

lemma shrink_loop_props:
  "shrink_loop orc ss st pc it = (st', pc', it') \<Longrightarrow> it \<le> maxIterations \<Longrightarrow>
     it \<le> it' \<and> it' \<le> maxIterations \<and> renders st' = renders st + (it' - it) \<and>
     (pc' \<le> 1 \<or> it' = maxIterations \<or> applyShrinkStep ss st' = None) \<and>
     (it' = it \<longrightarrow> st' = st \<and> pc' = pc) \<and> (it < it' \<longrightarrow> pc' = pages (document st'))"
proof (induction orc ss st pc it rule: shrink_loop.induct)
  case (1 orc ss st pageCount iteration)
  show ?case
  proof (cases "pageCount > 1 \<and> iteration < maxIterations")
    case False
    with "1.prems" show ?thesis by auto
  next
    case go: True
    show ?thesis
    proof (cases "applyShrinkStep ss st")
      case None
      with go "1.prems" show ?thesis by auto
    next
      case (Some st1)
      let ?st2 = "renderAndCount orc st1"
      from go Some "1.prems"(1) have loop:
        "shrink_loop orc ss ?st2 (pages (document ?st2)) (iteration + 1) = (st', pc', it')"
        by (simp add: Let_def)
      from go have "iteration + 1 \<le> maxIterations" by simp
      from "1.IH"[OF go Some refl loop this] renders_applyShrinkStep[OF Some]
      show ?thesis by auto
    qed
  qed
qed

lemma shrink_loop_unfold:
  "pc > 1 \<Longrightarrow> it < maxIterations \<Longrightarrow> applyShrinkStep ss st = Some st1 \<Longrightarrow>
   shrink_loop orc ss st pc it =
     shrink_loop orc ss (renderAndCount orc st1)
       (pages (document (renderAndCount orc st1))) (it + 1)"
  by (subst shrink_loop.simps) (simp add: Let_def)

lemma shrinkStrategies_sliderConfig:
  "shrinkStrategies sliderConfig =
     [\<lparr>name = ''pageMargin'', cssVar = ''--page-margin'', sid = ''marginSlider'',
        step = 1, unit = ''mm'', bound = 7\<rparr>,
      \<lparr>name = ''bodyMargin'', cssVar = ''--body-margin'', sid = ''bodyMarginSlider'',
        step = 1 / 10, unit = ''em'', bound = 0\<rparr>,
      \<lparr>name = ''ulMargin'', cssVar = ''--ul-margin'', sid = ''ulMarginSlider'',
        step = 1 / 10, unit = ''em'', bound = 0\<rparr>,
      \<lparr>name = ''headingScale'', cssVar = ''--heading-scale'', sid = ''headingSlider'',
        step = 1 / 10, unit = [], bound = 1\<rparr>,
      \<lparr>name = ''lineHeight'', cssVar = ''--line-height'', sid = ''lineHeightSlider'',
        step = 5 / 100, unit = [], bound = 1\<rparr>,
      \<lparr>name = ''fontSize'', cssVar = ''--body-font-size'', sid = ''fontSlider'',
        step = 1 / 2, unit = ''pt'', bound = 9\<rparr>]"
  by (simp add: shrinkStrategies_def sliderConfig_def getStep_def getLimit_def getSlider_def)

lemma applyShrinkStep_halfStepState:
  "applyShrinkStep (shrinkStrategies sliderConfig) halfStepState =
     Some (handleStyleUpdate [''--page-margin'' \<mapsto> CssNum 7 ''mm''] halfStepState)"
  by (simp add: shrinkStrategies_sliderConfig halfStepState_def computed_def round2_def Let_def)

lemma specShrinkStep_halfStepState:
  "specShrinkStep (shrinkStrategies sliderConfig) halfStepState =
     Some (handleStyleUpdate [''--body-margin'' \<mapsto> CssNum (4 / 10) ''em''] halfStepState)"
  by (simp add: shrinkStrategies_sliderConfig specShrinkStep_def halfStepState_def
      computed_def round2_def Let_def)

text \<open>
  Claim C6, as stated, fails. With the shipped configuration and a page margin of
  7.5 mm (minimum 7, step 1) the margin minus its step is below the minimum, so the
  rule of the claim passes the margin over and takes a full step of the body margin.
  The code lowers the page margin instead, by the half step that is left.
\<close>

theorem C6_counterexample:
  "applyShrinkStep (shrinkStrategies sliderConfig) halfStepState
     \<noteq> specShrinkStep (shrinkStrategies sliderConfig) halfStepState"
proof
  assume "applyShrinkStep (shrinkStrategies sliderConfig) halfStepState
     = specShrinkStep (shrinkStrategies sliderConfig) halfStepState"
  then have "handleStyleUpdate [''--page-margin'' \<mapsto> CssNum 7 ''mm''] halfStepState
     = handleStyleUpdate [''--body-margin'' \<mapsto> CssNum (4 / 10) ''em''] halfStepState"
    by (simp add: applyShrinkStep_halfStepState specShrinkStep_halfStepState)
  then have
    "currentStyles (handleStyleUpdate [''--page-margin'' \<mapsto> CssNum 7 ''mm''] halfStepState)
       ''--page-margin''
     = currentStyles
         (handleStyleUpdate [''--body-margin'' \<mapsto> CssNum (4 / 10) ''em''] halfStepState)
       ''--page-margin''"
    by simp
  then show False
    by (simp add: handleStyleUpdate_def setProperties_def halfStepState_def)
qed

lemma shrinkHeadroom_iff:
  "shrinkHeadroom st s \<longleftrightarrow>
     (\<exists>v u. computed st (cssVar s) = CssNum v u \<and> bound s + 1 / 1000 < v)"
  by (cases "computed st (cssVar s)") (simp_all add: shrinkHeadroom_def)

lemma applyShrinkStep_append:
  "\<forall>t \<in> set pre. \<not> shrinkHeadroom st t \<Longrightarrow>
   applyShrinkStep (pre @ rest) st = applyShrinkStep rest st"
  by (induction pre) (auto simp: shrinkHeadroom_def split: option.splits)

lemma applyShrinkStep_first:
  assumes "\<forall>t \<in> set pre. \<not> shrinkHeadroom st t"
    and "computed st (cssVar s) = CssNum val u" and "bound s + 1 / 1000 < val"
  shows "applyShrinkStep (pre @ s # post) st =
     Some (handleStyleUpdate
             [cssVar s \<mapsto> CssNum (round2 (max (bound s) (val - step s))) (unit s)] st)"
  using assms(2,3) by (simp add: applyShrinkStep_append[OF assms(1)] Let_def)

lemma computed_fun:
  "computed st =
     (\<lambda>v. case rootStyle st v of
            Some x \<Rightarrow> x
          | None \<Rightarrow> (case sheet st v of Some x \<Rightarrow> x | None \<Rightarrow> CssText []))"
  by (rule ext) (simp add: computed_def)

lemma renderAndCount_single:
  "renderAndCount orc (handleStyleUpdate [k \<mapsto> CssNum n u] st) =
     (let v = CssNum n u;
          cache = (currentStyles st)(k \<mapsto> v);
          inline = (\<lambda>x. case cache x of
                          None \<Rightarrow> ((rootStyle st)(k \<mapsto> v)) x
                        | Some y \<Rightarrow> if y = CssText [] then None else Some y);
          vars = (\<lambda>x. case inline x of
                        Some y \<Rightarrow> y
                      | None \<Rightarrow> (case sheet st x of Some y \<Rightarrow> y | None \<Rightarrow> CssText []))
      in st\<lparr>currentStyles := cache, rootStyle := inline, document := orc vars,
            renders := renders st + 1\<rparr>)"
proof -
  have a: "setProperties [k \<mapsto> CssNum n u] r = r(k \<mapsto> CssNum n u)" for r
    by (auto simp: setProperties_def fun_eq_iff)
  show ?thesis
    unfolding renderAndCount_def handleStyleUpdate_def Let_def
    by (simp add: a computed_fun) (simp add: setProperties_def cong: option.case_cong)
qed

lemma noHeadroom_iff:
  "(\<forall>v u. (case rootStyle st (cssVar t) of
             Some y \<Rightarrow> y
           | None \<Rightarrow> (case sheet st (cssVar t) of Some y \<Rightarrow> y | None \<Rightarrow> CssText []))
            = CssNum v u \<longrightarrow> v \<le> bound t + 1 / 1000)
   \<longleftrightarrow> \<not> shrinkHeadroom st t"
  unfolding shrinkHeadroom_iff computed_def by (auto simp: not_less)

text \<open>
  Claim C6, amended. The loop checks before every iteration: entered with a page count
  of at most 1, with 25 iterations counted, or with no strategy that has headroom, it
  returns at once and changes nothing. A strategy has headroom when its style variable
  reads as a number more than 0.001 above its minimum. Otherwise an iteration takes the
  first strategy of the shrink order that has headroom and sets its variable, in the
  cache and on the document element, to the larger of the minimum and the value minus
  the step, rounded to two decimals and written with the unit of the strategy; then it
  runs one pass (which sets every cached style on the document element again and lays
  the content out), reads the page count from the result, counts the iteration, and
  goes on from there. The ceiling is 25. A loop entered with at most 25 iterations
  counted runs one pass per iteration, never counts beyond 25, and ends with a page
  count of at most 1, or with 25 iterations counted, or with no strategy that has
  headroom.
\<close>

theorem C6_shrink_iteration:
  "(let var = (\<lambda>x k. case rootStyle x k of
                        Some y \<Rightarrow> y
                      | None \<Rightarrow> (case sheet x k of Some y \<Rightarrow> y | None \<Rightarrow> CssText []));
        stuck = (\<lambda>x. \<forall>t \<in> set ss. \<forall>v u.
                   var x (cssVar t) = CssNum v u \<longrightarrow> v \<le> bound t + 1 / 1000)
    in (pc \<le> 1 \<or> maxIterations \<le> it \<or> stuck st \<longrightarrow>
          shrink_loop orc ss st pc it = (st, pc, it)) \<and>
       (1 < pc \<and> it < maxIterations \<and> ss = pre @ s # post \<and>
        (\<forall>t \<in> set pre. \<forall>v u. var st (cssVar t) = CssNum v u \<longrightarrow> v \<le> bound t + 1 / 1000) \<and>
        var st (cssVar s) = CssNum val u \<and> bound s + 1 / 1000 < val \<longrightarrow>
          (let v = CssNum (of_int \<lfloor>max (bound s) (val - step s) * 100 + 1 / 2\<rfloor> / 100) (unit s);
               cache = (currentStyles st)(cssVar s \<mapsto> v);
               inline = (\<lambda>x. case cache x of
                               None \<Rightarrow> ((rootStyle st)(cssVar s \<mapsto> v)) x
                             | Some y \<Rightarrow> if y = CssText [] then None else Some y);
               vars = (\<lambda>x. case inline x of
                             Some y \<Rightarrow> y
                           | None \<Rightarrow> (case sheet st x of Some y \<Rightarrow> y | None \<Rightarrow> CssText []))
           in shrink_loop orc ss st pc it =
                shrink_loop orc ss
                  (st\<lparr>currentStyles := cache, rootStyle := inline, document := orc vars,
                      renders := renders st + 1\<rparr>)
                  (pages (orc vars)) (it + 1))) \<and>
       maxIterations = 25 \<and>
       (it \<le> maxIterations \<and> shrink_loop orc ss st pc it = (st', pc', it') \<longrightarrow>
          it \<le> it' \<and> it' \<le> 25 \<and> renders st' = renders st + (it' - it) \<and>
          (pc' \<le> 1 \<or> it' = 25 \<or> stuck st')))"
proof -
  let ?var = "\<lambda>(x :: fit_state) k. case rootStyle x k of
                        Some y \<Rightarrow> y
                      | None \<Rightarrow> (case sheet x k of Some y \<Rightarrow> y | None \<Rightarrow> CssText [])"
  let ?stuck = "\<lambda>x. \<forall>t \<in> set ss. \<forall>v u.
                   ?var x (cssVar t) = CssNum v u \<longrightarrow> v \<le> bound t + 1 / 1000"
  have stuck: "?stuck x \<longleftrightarrow> applyShrinkStep ss x = None" for x
    by (simp only: applyShrinkStep_None noHeadroom_iff)
  have a: "pc \<le> 1 \<or> maxIterations \<le> it \<or> ?stuck st \<longrightarrow>
          shrink_loop orc ss st pc it = (st, pc, it)"
    unfolding stuck by (subst shrink_loop.simps) auto
  have b: "shrink_loop orc ss st pc it =
      shrink_loop orc ss
        (st\<lparr>currentStyles := (currentStyles st)(cssVar s \<mapsto>
              CssNum (of_int \<lfloor>max (bound s) (val - step s) * 100 + 1 / 2\<rfloor> / 100) (unit s)),
            rootStyle := (\<lambda>x. case ((currentStyles st)(cssVar s \<mapsto>
              CssNum (of_int \<lfloor>max (bound s) (val - step s) * 100 + 1 / 2\<rfloor> / 100) (unit s))) x of
                               None \<Rightarrow> ((rootStyle st)(cssVar s \<mapsto>
              CssNum (of_int \<lfloor>max (bound s) (val - step s) * 100 + 1 / 2\<rfloor> / 100) (unit s))) x
                             | Some y \<Rightarrow> if y = CssText [] then None else Some y),
            document := orc (\<lambda>x. case (case ((currentStyles st)(cssVar s \<mapsto>
              CssNum (of_int \<lfloor>max (bound s) (val - step s) * 100 + 1 / 2\<rfloor> / 100) (unit s))) x of
                               None \<Rightarrow> ((rootStyle st)(cssVar s \<mapsto>
              CssNum (of_int \<lfloor>max (bound s) (val - step s) * 100 + 1 / 2\<rfloor> / 100) (unit s))) x
                             | Some y \<Rightarrow> if y = CssText [] then None else Some y) of
                             Some y \<Rightarrow> y
                           | None \<Rightarrow> (case sheet st x of Some y \<Rightarrow> y | None \<Rightarrow> CssText [])),
            renders := renders st + 1\<rparr>)
        (pages (orc (\<lambda>x. case (case ((currentStyles st)(cssVar s \<mapsto>
              CssNum (of_int \<lfloor>max (bound s) (val - step s) * 100 + 1 / 2\<rfloor> / 100) (unit s))) x of
                               None \<Rightarrow> ((rootStyle st)(cssVar s \<mapsto>
              CssNum (of_int \<lfloor>max (bound s) (val - step s) * 100 + 1 / 2\<rfloor> / 100) (unit s))) x
                             | Some y \<Rightarrow> if y = CssText [] then None else Some y) of
                             Some y \<Rightarrow> y
                           | None \<Rightarrow> (case sheet st x of Some y \<Rightarrow> y | None \<Rightarrow> CssText []))))
        (it + 1)"
    if h: "1 < pc" "it < maxIterations" "ss = pre @ s # post"
      "\<forall>t \<in> set pre. \<forall>v u. ?var st (cssVar t) = CssNum v u \<longrightarrow> v \<le> bound t + 1 / 1000"
      "?var st (cssVar s) = CssNum val u" "bound s + 1 / 1000 < val"
  proof -
    from h(4) have pre: "\<forall>t \<in> set pre. \<not> shrinkHeadroom st t"
      by (simp only: noHeadroom_iff)
    from h(5) have c: "computed st (cssVar s) = CssNum val u"
      by (simp add: computed_def)
    have step: "applyShrinkStep ss st =
        Some (handleStyleUpdate
               [cssVar s \<mapsto> CssNum (round2 (max (bound s) (val - step s))) (unit s)] st)"
      unfolding h(3) by (rule applyShrinkStep_first[OF pre c h(6)])
    show ?thesis
      unfolding shrink_loop_unfold[OF h(1) h(2) step]
      by (simp add: renderAndCount_single round2_def Let_def)
  qed
  have c: "maxIterations = 25" by (simp add: maxIterations_def)
  have d: "it \<le> it' \<and> it' \<le> 25 \<and> renders st' = renders st + (it' - it) \<and>
          (pc' \<le> 1 \<or> it' = 25 \<or> ?stuck st')"
    if "it \<le> maxIterations" "shrink_loop orc ss st pc it = (st', pc', it')"
    using shrink_loop_props[OF that(2) that(1)] unfolding stuck
    by (simp add: maxIterations_def)
  from a b c d show ?thesis unfolding Let_def by blast
qed

theorem C6_shrink_iteration_witness:
  "1 < (2 :: nat) \<and> 0 < maxIterations \<and>
   hd (shrinkStrategies sliderConfig)
     = \<lparr>name = ''pageMargin'', cssVar = ''--page-margin'', sid = ''marginSlider'',
        step = 1, unit = ''mm'', bound = 7\<rparr> \<and>
   computed halfStepState ''--page-margin'' = CssNum (15 / 2) ''mm'' \<and>
   shrink_loop onePageOracle (shrinkStrategies sliderConfig) halfStepState 2 0 =
     (renderAndCount onePageOracle
        (handleStyleUpdate [''--page-margin'' \<mapsto> CssNum 7 ''mm''] halfStepState), 1, 1)"
proof -
  let ?s = "\<lparr>name = ''pageMargin'', cssVar = ''--page-margin'', sid = ''marginSlider'',
        step = 1, unit = ''mm'', bound = 7 :: real\<rparr>"
  let ?r = "renderAndCount onePageOracle
        (handleStyleUpdate [''--page-margin'' \<mapsto> CssNum 7 ''mm''] halfStepState)"
  have h1: "0 < maxIterations" by (simp add: maxIterations_def)
  have h2: "hd (shrinkStrategies sliderConfig) = ?s"
    by (simp add: shrinkStrategies_sliderConfig)
  have h3: "computed halfStepState ''--page-margin'' = CssNum (15 / 2) ''mm''"
    by (simp add: computed_def halfStepState_def)
  have ss: "shrinkStrategies sliderConfig = [] @ ?s # tl (shrinkStrategies sliderConfig)"
    by (simp add: shrinkStrategies_sliderConfig)
  from C6_shrink_iteration [where orc = onePageOracle and ss = "shrinkStrategies sliderConfig"
      and st = halfStepState and pc = 2 and it = 0 and pre = "[]" and s = ?s
      and post = "tl (shrinkStrategies sliderConfig)" and val = "15 / 2" and u = "''mm''",
      unfolded Let_def, THEN conjunct2, THEN conjunct1] ss h1
  have step: "shrink_loop onePageOracle (shrinkStrategies sliderConfig) halfStepState 2 0 =
      shrink_loop onePageOracle (shrinkStrategies sliderConfig) ?r 1 1"
    by (simp add: renderAndCount_single Let_def halfStepState_def onePageOracle_def
        del: shrink_loop.simps cong: option.case_cong)
  from C6_shrink_iteration [where orc = onePageOracle and ss = "shrinkStrategies sliderConfig"
      and st = ?r and pc = 1 and it = 1, unfolded Let_def, THEN conjunct1]
  have stop: "shrink_loop onePageOracle (shrinkStrategies sliderConfig) ?r 1 1 = (?r, 1, 1)"
    by (simp del: shrink_loop.simps)
  from h1 h2 h3 step stop show ?thesis by simp
qed

subsection \<open>The expand loop\<close>

lemma applyExpandStep_None:
  "applyExpandStep es st = None \<longleftrightarrow> (\<forall>s \<in> set es. \<not> expandHeadroom st s)"
  by (induction es) (auto simp: expandHeadroom_def Let_def split: option.splits)

lemma applyExpandStep_Some:
  "applyExpandStep es st = Some (strat, prevVal, st1) \<Longrightarrow>
     \<exists>pre post. es = pre @ strat # post \<and> (\<forall>t \<in> set pre. \<not> expandHeadroom st t) \<and>
        expandHeadroom st strat \<and> parseFloat (computed st (cssVar strat)) = Some prevVal \<and>
        st1 = expandTo st strat"
proof (induction es)
  case Nil
  then show ?case by simp
next
  case (Cons a es)
  show ?case
  proof (cases "expandHeadroom st a")
    case True
    with Cons.prems have "strat = a \<and> parseFloat (computed st (cssVar a)) = Some prevVal
        \<and> st1 = expandTo st a"
      by (auto simp: expandHeadroom_def expandTo_def Let_def split: option.splits)
    with True show ?thesis by (intro exI[of _ "[]"] exI[of _ es]) simp
  next
    case False
    with Cons.prems have "applyExpandStep es st = Some (strat, prevVal, st1)"
      by (auto simp: expandHeadroom_def split: option.splits if_splits)
    from Cons.IH[OF this] obtain pre post where
      "es = pre @ strat # post" "\<forall>t \<in> set pre. \<not> expandHeadroom st t"
      "expandHeadroom st strat" "parseFloat (computed st (cssVar strat)) = Some prevVal"
      "st1 = expandTo st strat" by blast
    with False show ?thesis
      by (intro exI[of _ "a # pre"] exI[of _ post]) simp
  qed
qed

lemma expandStrategies_sliderConfig:
  "expandStrategies sliderConfig =
     [\<lparr>name = ''fontSize'', cssVar = ''--body-font-size'', sid = ''fontSlider'',
        step = 1 / 2, unit = ''pt'', bound = 13\<rparr>,
      \<lparr>name = ''lineHeight'', cssVar = ''--line-height'', sid = ''lineHeightSlider'',
        step = 5 / 100, unit = [], bound = 17 / 10\<rparr>,
      \<lparr>name = ''headingScale'', cssVar = ''--heading-scale'', sid = ''headingSlider'',
        step = 1 / 10, unit = [], bound = 17 / 10\<rparr>,
      \<lparr>name = ''bodyMargin'', cssVar = ''--body-margin'', sid = ''bodyMarginSlider'',
        step = 1 / 10, unit = ''em'', bound = 1 / 2\<rparr>,
      \<lparr>name = ''ulMargin'', cssVar = ''--ul-margin'', sid = ''ulMarginSlider'',
        step = 1 / 10, unit = ''em'', bound = 1 / 2\<rparr>,
      \<lparr>name = ''pageMargin'', cssVar = ''--page-margin'', sid = ''marginSlider'',
        step = 1, unit = ''mm'', bound = 21\<rparr>]"
  by (simp add: expandStrategies_def sliderConfig_def getStep_def getLimit_def getSlider_def)

lemma applyExpandStep_pxState:
  "applyExpandStep (expandStrategies sliderConfig) pxState =
     Some (fontStrategy, 9,
           handleStyleUpdate [''--body-font-size'' \<mapsto> CssNum (19 / 2) ''pt''] pxState)"
  by (simp add: expandStrategies_sliderConfig pxState_def fontStrategy_def computed_def
      round2_def Let_def)

lemma sparse_pxState: "isSparse (checkContentFill (document pxState))"
  by (simp add: pxState_def checkContentFill_def actualContentHeight_def js_div_def Let_def)

lemma overshoot_pxState:
  "pages (document (renderAndCount pxOracle
     (handleStyleUpdate [''--body-font-size'' \<mapsto> CssNum (19 / 2) ''pt''] pxState))) = 2"
  by (simp add: document_renderAndCount)
     (simp add: renderAndCount_def handleStyleUpdate_def setProperties_def computed_def
        pxOracle_def Let_def)

lemma rolled_back_pxState:
  "pages (document (renderAndCount pxOracle
     (handleStyleUpdate [''--body-font-size'' \<mapsto> CssNum 9 ''pt'']
        (renderAndCount pxOracle
           (handleStyleUpdate [''--body-font-size'' \<mapsto> CssNum (19 / 2) ''pt'']
              pxState))))) = 2"
  by (simp add: document_renderAndCount)
     (simp add: renderAndCount_def handleStyleUpdate_def setProperties_def computed_def
        pxOracle_def Let_def)

lemma expand_loop_pxState:
  "expand_loop pxOracle (expandStrategies sliderConfig) pxState 1 0 =
     (renderAndCount pxOracle
        (handleStyleUpdate [''--body-font-size'' \<mapsto> CssNum 9 ''pt'']
           (renderAndCount pxOracle
              (handleStyleUpdate [''--body-font-size'' \<mapsto> CssNum (19 / 2) ''pt'']
                 pxState))), 2, 0)"
  by (subst expand_loop.simps)
     (simp add: maxIterations_def sparse_pxState applyExpandStep_pxState
        overshoot_pxState rolled_back_pxState fontStrategy_def Let_def)

lemma fitToOnePage_pxState:
  "fitToOnePage sliderConfig pxOracle pxState =
     (renderAndCount pxOracle
        (handleStyleUpdate [''--body-font-size'' \<mapsto> CssNum 9 ''pt'']
           (renderAndCount pxOracle
              (handleStyleUpdate [''--body-font-size'' \<mapsto> CssNum (19 / 2) ''pt'']
                 pxState))),
      \<lparr>attempted = True, direction = Expand, success = False, iterations = 0,
       finalPageCount = 2, fillRatio = Fin 1\<rparr>)"
proof -
  have d: "initial_direction (document pxState) = Expand"
    using sparse_pxState by (simp add: initial_direction_def) (simp add: pxState_def)
  have p: "pages (document pxState) = 1" by (simp add: pxState_def)
  have r: "ratio (checkContentFill (document (renderAndCount pxOracle
        (handleStyleUpdate [''--body-font-size'' \<mapsto> CssNum 9 ''pt'']
           (renderAndCount pxOracle
              (handleStyleUpdate [''--body-font-size'' \<mapsto> CssNum (19 / 2) ''pt'']
                 pxState)))))) = Fin 1"
    by (simp add: document_renderAndCount)
       (simp add: renderAndCount_def handleStyleUpdate_def setProperties_def computed_def
          pxOracle_def checkContentFill_def Let_def)
  show ?thesis
    unfolding fitToOnePage_def d p
    by (simp add: expand_loop_pxState[unfolded One_nat_def] rolled_back_pxState r
        del: expand_loop.simps)
qed

text \<open>
  Claim C7, as stated, fails. Take a one-page document, 40 percent full, whose body
  font the style sheet sets to 9 px, laid out and measured. The first expand step sets
  the font to 9.5 pt, which needs a second page. The rollback writes the number read
  before the step with the unit of the strategy, 9 pt, which is larger than 9 px: the
  corrective pass shows two pages again, and the search ends there, with two pages and
  a font that is not the one from before the step.
\<close>

theorem C7_counterexample:
  "settled pxOracle pxState \<and>
   pages (document pxState) = 1 \<and>
   computed pxState ''--body-font-size'' = CssNum 9 ''px'' \<and>
   snd (expand_loop pxOracle (expandStrategies sliderConfig) pxState 1 0) = (2, 0) \<and>
   computed (fst (expand_loop pxOracle (expandStrategies sliderConfig) pxState 1 0))
     ''--body-font-size'' = CssNum 9 ''pt'' \<and>
   snd (fitToOnePage sliderConfig pxOracle pxState) =
     \<lparr>attempted = True, direction = Expand, success = False, iterations = 0,
      finalPageCount = 2, fillRatio = Fin 1\<rparr>"
proof -
  have s: "settled pxOracle pxState"
    by (simp add: settled_def pxState_def computed_fun pxOracle_def)
  have p: "pages (document pxState) = 1" by (simp add: pxState_def)
  have u: "computed pxState ''--body-font-size'' = CssNum 9 ''px''"
    by (simp add: pxState_def computed_def)
  have c: "computed (renderAndCount pxOracle
        (handleStyleUpdate [''--body-font-size'' \<mapsto> CssNum 9 ''pt'']
           (renderAndCount pxOracle
              (handleStyleUpdate [''--body-font-size'' \<mapsto> CssNum (19 / 2) ''pt'']
                 pxState)))) ''--body-font-size'' = CssNum 9 ''pt''"
    by (simp add: renderAndCount_def handleStyleUpdate_def setProperties_def computed_def
        Let_def)
  from s p u c show ?thesis
    by (simp add: expand_loop_pxState[unfolded One_nat_def] fitToOnePage_pxState
        del: expand_loop.simps)
qed

text \<open>
  Claim C7, amended. When the step of an expand iteration brings the page count above
  1, the loop ends in that iteration: the variable of the strategy just used is set to
  the number it read as before the step, written with the unit of the strategy; every
  other style variable is as it was; two passes have run (the one that overflowed and
  the corrective one); the iteration count is not raised; and the page count is
  whatever the corrective pass shows, which the loop does not look at. When the search
  was started on a settled one-page document and the variable carried the unit of its
  strategy, the computed styles are those from before the step, and the corrective pass
  shows one page again.
\<close>

theorem C7_expand_rollback:
  assumes loop: "expand_loop orc es st pageCount iteration = (st', pc', it')"
    and pc: "pageCount = 1" and it: "iteration < maxIterations"
    and sparse: "isSparse (checkContentFill (document st))"
    and step: "applyExpandStep es st = Some (strat, prevVal, st1)"
    and over: "pages (document (renderAndCount orc st1)) > 1"
  shows "st' = renderAndCount orc
                 (handleStyleUpdate [cssVar strat \<mapsto> CssNum prevVal (unit strat)]
                    (renderAndCount orc st1)) \<and>
         it' = iteration \<and> pc' = pages (document st') \<and>
         parseFloat (computed st (cssVar strat)) = Some prevVal \<and>
         computed st' (cssVar strat) = CssNum prevVal (unit strat) \<and>
         parseFloat (computed st' (cssVar strat)) = Some prevVal \<and>
         (\<forall>v. v \<noteq> cssVar strat \<longrightarrow>
               currentStyles st' v = currentStyles st v \<and>
               rootStyle st' v = setProperties (currentStyles st) (rootStyle st) v) \<and>
         renders st' = renders st + 2 \<and>
         (settled orc st \<and> pages (document st) = 1 \<and>
          computed st (cssVar strat) = CssNum prevVal (unit strat)
            \<longrightarrow> computed st' = computed st \<and> pc' = 1)"
proof -
  let ?v = "cssVar strat"
  let ?st4 = "renderAndCount orc
                (handleStyleUpdate [?v \<mapsto> CssNum prevVal (unit strat)]
                   (renderAndCount orc st1))"
  from applyExpandStep_Some[OF step] have pv: "parseFloat (computed st ?v) = Some prevVal"
    and st1: "st1 = expandTo st strat" by auto
  have "expand_loop orc es st pageCount iteration = (?st4, pages (document ?st4), iteration)"
    using pc it sparse step over by (subst expand_loop.simps) (simp add: Let_def)
  with loop have res: "st' = ?st4" "pc' = pages (document ?st4)" "it' = iteration"
    by simp_all
  have val: "computed ?st4 ?v = CssNum prevVal (unit strat)"
    by (simp add: renderAndCount_def handleStyleUpdate_def setProperties_def computed_def Let_def)
  have others: "currentStyles ?st4 v = currentStyles st v \<and>
                rootStyle ?st4 v = setProperties (currentStyles st) (rootStyle st) v"
    if "v \<noteq> ?v" for v
    using that pv
    by (simp add: st1 expandTo_def renderAndCount_def handleStyleUpdate_def setProperties_def Let_def map_add_def
        split: option.splits)
  have rend: "renders ?st4 = renders st + 2"
    using pv by (simp add: st1 expandTo_def)
  have one: "computed ?st4 = computed st \<and> pages (document ?st4) = 1"
    if s: "settled orc st" and p1: "pages (document st) = 1"
      and u: "computed st ?v = CssNum prevVal (unit strat)"
  proof -
    have "computed ?st4 w = computed st w" for w
    proof (cases "w = ?v")
      case True
      with val u show ?thesis by simp
    next
      case False
      from others[OF False] s have "rootStyle ?st4 w = rootStyle st w"
        by (simp add: settled_def)
      moreover have "sheet ?st4 = sheet st"
        using pv by (simp add: st1 expandTo_def renderAndCount_def handleStyleUpdate_def setProperties_def Let_def)
      ultimately show ?thesis by (simp add: computed_def split: option.splits)
    qed
    then have eq: "computed ?st4 = computed st" by (rule ext)
    moreover have "document ?st4 = orc (computed ?st4)"
      by (rule document_renderAndCount)
    ultimately show ?thesis using s p1 by (simp add: settled_def)
  qed
  show ?thesis
    unfolding res using pv val others rend one by auto
qed

lemma applyExpandStep_sparseState:
  "applyExpandStep (expandStrategies sliderConfig) sparseState =
     Some (fontStrategy, 9,
           handleStyleUpdate [''--body-font-size'' \<mapsto> CssNum (19 / 2) ''pt''] sparseState)"
  by (simp add: expandStrategies_sliderConfig sparseState_def fontStrategy_def computed_def
      round2_def Let_def)

lemma overshoot_sparseState:
  "pages (document (renderAndCount fontOracle
     (handleStyleUpdate [''--body-font-size'' \<mapsto> CssNum (19 / 2) ''pt''] sparseState))) = 2"
  by (simp add: document_renderAndCount)
     (simp add: renderAndCount_def handleStyleUpdate_def setProperties_def computed_def fontOracle_def Let_def)

lemma rolled_back_sparseState:
  "pages (document (renderAndCount fontOracle
     (handleStyleUpdate [''--body-font-size'' \<mapsto> CssNum 9 ''pt'']
        (renderAndCount fontOracle
           (handleStyleUpdate [''--body-font-size'' \<mapsto> CssNum (19 / 2) ''pt'']
              sparseState))))) = 1"
  by (simp add: document_renderAndCount)
     (simp add: renderAndCount_def handleStyleUpdate_def setProperties_def computed_def fontOracle_def Let_def)

lemma sparse_sparseState: "isSparse (checkContentFill (document sparseState))"
  by (simp add: sparseState_def checkContentFill_def actualContentHeight_def js_div_def Let_def)

lemma expand_loop_sparseState:
  "expand_loop fontOracle (expandStrategies sliderConfig) sparseState 1 0 =
     (renderAndCount fontOracle
        (handleStyleUpdate [''--body-font-size'' \<mapsto> CssNum 9 ''pt'']
           (renderAndCount fontOracle
              (handleStyleUpdate [''--body-font-size'' \<mapsto> CssNum (19 / 2) ''pt'']
                 sparseState))), 1, 0)"
  by (subst expand_loop.simps)
     (simp add: maxIterations_def sparse_sparseState applyExpandStep_sparseState
        overshoot_sparseState rolled_back_sparseState fontStrategy_def Let_def)

theorem C7_expand_rollback_witness:
  "expand_loop fontOracle (expandStrategies sliderConfig) sparseState 1 0 =
     (renderAndCount fontOracle
        (handleStyleUpdate [''--body-font-size'' \<mapsto> CssNum 9 ''pt'']
           (renderAndCount fontOracle
              (handleStyleUpdate [''--body-font-size'' \<mapsto> CssNum (19 / 2) ''pt'']
                 sparseState))), 1, 0) \<and>
   (0 :: nat) < maxIterations \<and>
   isSparse (checkContentFill (document sparseState)) \<and>
   applyExpandStep (expandStrategies sliderConfig) sparseState =
     Some (fontStrategy, 9,
           handleStyleUpdate [''--body-font-size'' \<mapsto> CssNum (19 / 2) ''pt''] sparseState) \<and>
   pages (document (renderAndCount fontOracle
     (handleStyleUpdate [''--body-font-size'' \<mapsto> CssNum (19 / 2) ''pt''] sparseState))) > 1 \<and>
   settled fontOracle sparseState \<and>
   pages (document sparseState) = 1 \<and>
   computed sparseState (cssVar fontStrategy) = CssNum 9 (unit fontStrategy) \<and>
   parseFloat (computed
     (renderAndCount fontOracle
        (handleStyleUpdate [''--body-font-size'' \<mapsto> CssNum 9 ''pt'']
           (renderAndCount fontOracle
              (handleStyleUpdate [''--body-font-size'' \<mapsto> CssNum (19 / 2) ''pt'']
                 sparseState)))) (cssVar fontStrategy)) = Some 9"
proof -
  have h2: "(1 :: nat) = 1" by simp
  have h3: "(0 :: nat) < maxIterations" by (simp add: maxIterations_def)
  have h5: "pages (document (renderAndCount fontOracle
     (handleStyleUpdate [''--body-font-size'' \<mapsto> CssNum (19 / 2) ''pt''] sparseState))) > 1"
    by (simp add: overshoot_sparseState)
  have s: "settled fontOracle sparseState"
    by (simp add: settled_def sparseState_def computed_def fontOracle_def)
  have p: "pages (document sparseState) = 1" by (simp add: sparseState_def)
  have u: "computed sparseState (cssVar fontStrategy) = CssNum 9 (unit fontStrategy)"
    by (simp add: sparseState_def computed_def fontStrategy_def)
  from C7_expand_rollback [OF expand_loop_sparseState h2 h3 sparse_sparseState
      applyExpandStep_sparseState h5]
  have "parseFloat (computed
     (renderAndCount fontOracle
        (handleStyleUpdate [''--body-font-size'' \<mapsto> CssNum 9 ''pt'']
           (renderAndCount fontOracle
              (handleStyleUpdate [''--body-font-size'' \<mapsto> CssNum (19 / 2) ''pt'']
                 sparseState)))) (cssVar fontStrategy)) = Some 9"
    by blast
  with expand_loop_sparseState h3 sparse_sparseState applyExpandStep_sparseState h5 s p u
  show ?thesis by simp
qed

subsection \<open>Bounds\<close>

lemma computed_handleStyleUpdate_single:
  "computed (handleStyleUpdate [k \<mapsto> CssNum n u] st) v
     = (if v = k then CssNum n u else computed st v)"
  by (simp add: computed_def handleStyleUpdate_def setProperties_def split: option.splits)

lemma withinBoundsD:
  assumes "withinBounds ss es st" and "s \<in> set ss" and "e \<in> set es"
    and "cssVar s = cssVar e" and "parseFloat (computed st (cssVar s)) = Some val"
  shows "bound s \<le> val \<and> val \<le> bound e"
proof -
  from assms(1-4)
  have "case parseFloat (computed st (cssVar s)) of
          None \<Rightarrow> True | Some val \<Rightarrow> bound s \<le> val \<and> val \<le> bound e"
    unfolding withinBounds_def by blast
  with assms(5) show ?thesis by simp
qed

lemma shrinkTo_withinBounds:
  assumes d: "distinct (map cssVar ss)"
    and g: "\<forall>s \<in> set ss \<union> set es. onGrid (bound s) \<and> 0 \<le> step s"
    and w: "withinBounds ss es st"
    and s0: "s0 \<in> set ss" and h: "shrinkHeadroom st s0"
  shows "withinBounds ss es (shrinkTo st s0)"
proof -
  from h obtain val where pv: "parseFloat (computed st (cssVar s0)) = Some val"
    and hv: "val > bound s0 + 1 / 1000"
    by (auto simp: shrinkHeadroom_def split: option.splits)
  let ?new = "round2 (max (bound s0) (val - step s0))"
  have comp: "computed (shrinkTo st s0) v =
      (if v = cssVar s0 then CssNum ?new (unit s0) else computed st v)" for v
    by (simp add: shrinkTo_def pv computed_handleStyleUpdate_single)
  from g s0 have g0: "round2 (bound s0) = bound s0" "0 \<le> step s0"
    by (auto simp: onGrid_def)
  have lo: "bound s0 \<le> ?new"
    using round2_mono[of "bound s0" "max (bound s0) (val - step s0)"] g0 by simp
  have hi: "?new \<le> bound e" if e: "e \<in> set es" "cssVar s0 = cssVar e" for e
  proof -
    from withinBoundsD[OF w s0 e pv] have "val \<le> bound e" by simp
    with g0 hv have "max (bound s0) (val - step s0) \<le> bound e" by simp
    from round2_mono[OF this] g e show ?thesis by (auto simp: onGrid_def)
  qed
  show ?thesis
    unfolding withinBounds_def
  proof (intro ballI impI)
    fix s e assume s: "s \<in> set ss" and e: "e \<in> set es" and eq: "cssVar s = cssVar e"
    show "case parseFloat (computed (shrinkTo st s0) (cssVar s)) of
            None \<Rightarrow> True | Some val \<Rightarrow> bound s \<le> val \<and> val \<le> bound e"
    proof (cases "cssVar s = cssVar s0")
      case True
      with d s s0 have "s = s0" by (auto simp: distinct_map inj_on_def)
      with lo hi[OF e] eq show ?thesis by (simp add: comp)
    next
      case False
      with w s e eq show ?thesis by (simp add: comp withinBounds_def)
    qed
  qed
qed

lemma expandTo_withinBounds:
  assumes d: "distinct (map cssVar es)"
    and g: "\<forall>s \<in> set ss \<union> set es. onGrid (bound s) \<and> 0 \<le> step s"
    and w: "withinBounds ss es st"
    and e0: "e0 \<in> set es" and h: "expandHeadroom st e0"
  shows "withinBounds ss es (expandTo st e0)"
proof -
  from h obtain val where pv: "parseFloat (computed st (cssVar e0)) = Some val"
    and hv: "val < bound e0 - 1 / 1000"
    by (auto simp: expandHeadroom_def split: option.splits)
  let ?new = "round2 (min (bound e0) (val + step e0))"
  have comp: "computed (expandTo st e0) v =
      (if v = cssVar e0 then CssNum ?new (unit e0) else computed st v)" for v
    by (simp add: expandTo_def pv computed_handleStyleUpdate_single)
  from g e0 have g0: "round2 (bound e0) = bound e0" "0 \<le> step e0"
    by (auto simp: onGrid_def)
  have hi: "?new \<le> bound e0"
    using round2_mono[of "min (bound e0) (val + step e0)" "bound e0"] g0 by simp
  have lo: "bound s \<le> ?new" if s: "s \<in> set ss" "cssVar s = cssVar e0" for s
  proof -
    from s(2) pv have "parseFloat (computed st (cssVar s)) = Some val" by simp
    from withinBoundsD[OF w s(1) e0 s(2) this] have "bound s \<le> val" by simp
    with g0 hv have "bound s \<le> min (bound e0) (val + step e0)" by simp
    from round2_mono[OF this] g s show ?thesis by (auto simp: onGrid_def)
  qed
  show ?thesis
    unfolding withinBounds_def
  proof (intro ballI impI)
    fix s e assume s: "s \<in> set ss" and e: "e \<in> set es" and eq: "cssVar s = cssVar e"
    show "case parseFloat (computed (expandTo st e0) (cssVar s)) of
            None \<Rightarrow> True | Some val \<Rightarrow> bound s \<le> val \<and> val \<le> bound e"
    proof (cases "cssVar e = cssVar e0")
      case True
      with d e e0 have "e = e0" by (auto simp: distinct_map inj_on_def)
      with hi lo[OF s] eq True show ?thesis by (simp add: comp)
    next
      case False
      with w s e eq show ?thesis by (simp add: comp withinBounds_def)
    qed
  qed
qed

lemma applyDelta_withinBounds:
  assumes "distinct (map cssVar ss)" and "distinct (map cssVar es)"
    and g: "\<forall>s \<in> set ss \<union> set es. onGrid (bound s) \<and> 0 \<le> step s"
    and w: "withinBounds ss es st"
  shows "withinBounds ss es (applyDelta ss es op st)"
proof (cases op)
  case ShrinkStep
  show ?thesis
  proof (cases "applyShrinkStep ss st")
    case None
    with ShrinkStep w show ?thesis by (simp add: applyDelta_def)
  next
    case (Some st1)
    from applyShrinkStep_Some[OF Some] obtain pre s post where
      "ss = pre @ s # post" "shrinkHeadroom st s" "st1 = shrinkTo st s" by blast
    with shrinkTo_withinBounds[OF assms(1) g w, of s] ShrinkStep Some
    show ?thesis by (simp add: applyDelta_def)
  qed
next
  case ExpandStep
  show ?thesis
  proof (cases "applyExpandStep es st")
    case None
    with ExpandStep w show ?thesis by (simp add: applyDelta_def)
  next
    case (Some r)
    obtain strat prevVal st1 where r: "r = (strat, prevVal, st1)" by (cases r) auto
    from applyExpandStep_Some[OF Some[unfolded r]] obtain pre post where
      "es = pre @ strat # post" "expandHeadroom st strat" "st1 = expandTo st strat" by blast
    with expandTo_withinBounds[OF assms(2) g w, of strat] ExpandStep Some r
    show ?thesis by (simp add: applyDelta_def)
  qed
qed

lemma fold_applyDelta_withinBounds:
  assumes "distinct (map cssVar ss)" and "distinct (map cssVar es)"
    and "\<forall>s \<in> set ss \<union> set es. onGrid (bound s) \<and> 0 \<le> step s"
  shows "withinBounds ss es st \<Longrightarrow> withinBounds ss es (fold (applyDelta ss es) ops st)"
  by (induction ops arbitrary: st) (simp_all add: applyDelta_withinBounds[OF assms])

lemma distinct_shrinkStrategies: "distinct (map cssVar (shrinkStrategies c))"
  by (simp add: shrinkStrategies_def)

lemma distinct_expandStrategies: "distinct (map cssVar (expandStrategies c))"
  by (simp add: expandStrategies_def)

lemma shrinkStrategies_offGridConfig:
  "shrinkStrategies offGridConfig =
     [\<lparr>name = ''pageMargin'', cssVar = ''--page-margin'', sid = ''marginSlider'',
        step = 1, unit = ''mm'', bound = 7004 / 1000\<rparr>,
      \<lparr>name = ''bodyMargin'', cssVar = ''--body-margin'', sid = ''bodyMarginSlider'',
        step = 1 / 10, unit = ''em'', bound = 0\<rparr>,
      \<lparr>name = ''ulMargin'', cssVar = ''--ul-margin'', sid = ''ulMarginSlider'',
        step = 1 / 10, unit = ''em'', bound = 0\<rparr>,
      \<lparr>name = ''headingScale'', cssVar = ''--heading-scale'', sid = ''headingSlider'',
        step = 1 / 10, unit = [], bound = 1\<rparr>,
      \<lparr>name = ''lineHeight'', cssVar = ''--line-height'', sid = ''lineHeightSlider'',
        step = 5 / 100, unit = [], bound = 1\<rparr>,
      \<lparr>name = ''fontSize'', cssVar = ''--body-font-size'', sid = ''fontSlider'',
        step = 1 / 2, unit = ''pt'', bound = 9\<rparr>]"
  by (simp add: shrinkStrategies_def offGridConfig_def getStep_def getLimit_def getSlider_def)

lemma expandStrategies_offGridConfig:
  "expandStrategies offGridConfig =
     [\<lparr>name = ''fontSize'', cssVar = ''--body-font-size'', sid = ''fontSlider'',
        step = 1 / 2, unit = ''pt'', bound = 12\<rparr>,
      \<lparr>name = ''lineHeight'', cssVar = ''--line-height'', sid = ''lineHeightSlider'',
        step = 5 / 100, unit = [], bound = 16 / 10\<rparr>,
      \<lparr>name = ''headingScale'', cssVar = ''--heading-scale'', sid = ''headingSlider'',
        step = 1 / 10, unit = [], bound = 17 / 10\<rparr>,
      \<lparr>name = ''bodyMargin'', cssVar = ''--body-margin'', sid = ''bodyMarginSlider'',
        step = 1 / 10, unit = ''em'', bound = 1 / 2\<rparr>,
      \<lparr>name = ''ulMargin'', cssVar = ''--ul-margin'', sid = ''ulMarginSlider'',
        step = 1 / 10, unit = ''em'', bound = 1 / 2\<rparr>,
      \<lparr>name = ''pageMargin'', cssVar = ''--page-margin'', sid = ''marginSlider'',
        step = 1, unit = ''mm'', bound = 21\<rparr>]"
  by (simp add: expandStrategies_def offGridConfig_def getStep_def getLimit_def getSlider_def)

lemma withinBounds_offGridState:
  "withinBounds (shrinkStrategies offGridConfig) (expandStrategies offGridConfig) offGridState"
  by (simp add: withinBounds_def shrinkStrategies_offGridConfig expandStrategies_offGridConfig
      offGridState_def computed_def)

lemma applyDelta_offGridState:
  "applyDelta (shrinkStrategies offGridConfig) (expandStrategies offGridConfig) ShrinkStep
     offGridState =
   handleStyleUpdate [''--page-margin'' \<mapsto> CssNum 7 ''mm''] offGridState"
  by (simp add: applyDelta_def shrinkStrategies_offGridConfig offGridState_def computed_def
      round2_def Let_def)

text \<open>
  Claim C8 says what the step helpers set out to do: each cuts the new value off at the
  bound of its strategy. The rounding to two decimals comes after the cut, though, and
  can undo it. With a minimum of 7.004 for the page margin, one shrink step from 8 mm
  gives max(7.004, 7) = 7.004, which the rounding turns into 7: the helper writes a
  value below the minimum it has just enforced.
\<close>

theorem C8_rounding_undoes_clamp:
  "getLimit offGridConfig ''marginSlider'' False 7 = 7004 / 1000 \<and>
   getStep offGridConfig ''marginSlider'' 1 = 1 \<and>
   computed offGridState ''--page-margin'' = CssNum 8 ''mm'' \<and>
   max (7004 / 1000) (8 - 1) = (7004 / 1000 :: real) \<and>
   round2 (7004 / 1000) = 7 \<and>
   applyShrinkStep (shrinkStrategies offGridConfig) offGridState =
     Some (handleStyleUpdate [''--page-margin'' \<mapsto> CssNum 7 ''mm''] offGridState) \<and>
   computed (handleStyleUpdate [''--page-margin'' \<mapsto> CssNum 7 ''mm''] offGridState)
     ''--page-margin'' = CssNum 7 ''mm'' \<and>
   (7 :: real) < getLimit offGridConfig ''marginSlider'' False 7"
proof -
  have a: "getLimit offGridConfig ''marginSlider'' False 7 = 7004 / 1000"
    "getStep offGridConfig ''marginSlider'' 1 = 1"
    by (simp_all add: offGridConfig_def getLimit_def getStep_def getSlider_def)
  have b: "computed offGridState ''--page-margin'' = CssNum 8 ''mm''"
    by (simp add: offGridState_def computed_def)
  have c: "round2 (7004 / 1000) = 7" by (simp add: round2_def)
  have d: "applyShrinkStep (shrinkStrategies offGridConfig) offGridState =
     Some (handleStyleUpdate [''--page-margin'' \<mapsto> CssNum 7 ''mm''] offGridState)"
    by (simp add: shrinkStrategies_offGridConfig offGridState_def computed_def round2_def
        Let_def)
  have e: "computed (handleStyleUpdate [''--page-margin'' \<mapsto> CssNum 7 ''mm''] offGridState)
     ''--page-margin'' = CssNum 7 ''mm''"
    by (simp add: computed_handleStyleUpdate_single)
  from a b c d e show ?thesis by simp
qed

text \<open>
  In terms of \<open>withinBounds\<close>: the document with the margin of 8 mm is within the bounds
  of that configuration, and one shrink step takes it out of them.
\<close>

lemma bounds_lost_offGridState:
  "withinBounds (shrinkStrategies offGridConfig) (expandStrategies offGridConfig) offGridState \<and>
   \<not> withinBounds (shrinkStrategies offGridConfig) (expandStrategies offGridConfig)
       (fold (applyDelta (shrinkStrategies offGridConfig) (expandStrategies offGridConfig))
          [ShrinkStep] offGridState)"
proof -
  have "\<not> withinBounds (shrinkStrategies offGridConfig) (expandStrategies offGridConfig)
       (handleStyleUpdate [''--page-margin'' \<mapsto> CssNum 7 ''mm''] offGridState)"
    by (simp add: withinBounds_def shrinkStrategies_offGridConfig
        expandStrategies_offGridConfig computed_handleStyleUpdate_single)
  with withinBounds_offGridState applyDelta_offGridState show ?thesis by simp
qed

text \<open>
  The rounding leaves a bound with at most two decimals where it is. With such bounds,
  which the shipped configuration has, and no negative step, a style variable that lies
  within its bounds stays within them under every sequence of shrink and expand steps.
\<close>

lemma bounds_kept_on_grid:
  assumes "gridConfig c"
    and "withinBounds (shrinkStrategies c) (expandStrategies c) st"
  shows "withinBounds (shrinkStrategies c) (expandStrategies c)
           (fold (applyDelta (shrinkStrategies c) (expandStrategies c)) ops st)"
  using fold_applyDelta_withinBounds[OF distinct_shrinkStrategies distinct_expandStrategies
      assms(1)[unfolded gridConfig_def]] assms(2) .

lemma gridConfig_sliderConfig: "gridConfig sliderConfig"
  by (simp add: gridConfig_def shrinkStrategies_sliderConfig expandStrategies_sliderConfig
      onGrid_def round2_def)

lemma withinBounds_halfStepState:
  "withinBounds (shrinkStrategies sliderConfig) (expandStrategies sliderConfig) halfStepState"
  by (simp add: withinBounds_def shrinkStrategies_sliderConfig expandStrategies_sliderConfig
      halfStepState_def computed_def)

lemma bounds_kept_halfStepState:
  "withinBounds (shrinkStrategies sliderConfig) (expandStrategies sliderConfig)
     (fold (applyDelta (shrinkStrategies sliderConfig) (expandStrategies sliderConfig))
        [ShrinkStep, ExpandStep, ShrinkStep] halfStepState)"
  by (rule bounds_kept_on_grid [OF gridConfig_sliderConfig withinBounds_halfStepState])

section \<open>Properties of the handshake\<close>

lemma intervalTick_armed:
  "handshakeInterval s \<Longrightarrow> hasParent s \<Longrightarrow>
   handshakeInterval ((intervalTick ^^ n) s) \<and> hasParent ((intervalTick ^^ n) s) \<and>
   outbox ((intervalTick ^^ n) s) = outbox s @ replicate n READY"
proof (induction n)
  case 0
  then show ?case by simp
next
  case (Suc n)
  then show ?case
    by (simp add: intervalTick_def postToParent_def replicate_append_same)
qed

lemma intervalTick_cleared:
  "\<not> handshakeInterval s \<Longrightarrow> (intervalTick ^^ n) s = s"
  by (induction n) (simp_all add: intervalTick_def)

lemma receiveACK_clears:
  "\<not> handshakeInterval (receiveACK s) \<and> isHandshakeComplete (receiveACK s) \<and>
   outbox (receiveACK s) = outbox s"
  by (simp add: receiveACK_def Let_def)

lemma fold_send_queued:
  "iframe c \<Longrightarrow> \<not> isIframeReady c \<Longrightarrow>
   fold sendMessageToIframe cmds c = c\<lparr>messageQueue := messageQueue c @ cmds\<rparr>"
  by (induction cmds arbitrary: c) (simp_all add: sendMessageToIframe_def)

lemma fold_send_posted:
  "iframe c \<Longrightarrow> isIframeReady c \<Longrightarrow>
   fold sendMessageToIframe cmds c = c\<lparr>posted := posted c @ cmds\<rparr>"
  by (induction cmds arbitrary: c) (simp_all add: sendMessageToIframe_def)

lemma flushQueue_all:
  "flushQueue c = c\<lparr>messageQueue := [], posted := posted c @ messageQueue c\<rparr>"
proof (induction c rule: flushQueue.induct)
  case (1 c)
  show ?case
  proof (cases "messageQueue c")
    case Nil
    then show ?thesis by (subst flushQueue.simps) simp
  next
    case (Cons d rest)
    with "1.IH"[OF Cons] show ?thesis by (subst flushQueue.simps) simp
  qed
qed

text \<open>
  Claim C3. A render context that has a parent posts one \<open>READY\<close> per firing of its
  interval timer from the start of the handshake on; once it has received \<open>ACK\<close> the
  timer is cleared and nothing further is posted. A host whose frame exists posts
  nothing to the frame before it is ready: the commands sent are queued. On \<open>READY\<close>
  it posts \<open>ACK\<close> first, then the queued commands in the order in which they were
  sent, then the initial styles, and the queue is empty afterwards.
\<close>

theorem C3_handshake:
  assumes "hasParent r" and "iframe c" and "\<not> isIframeReady c"
  shows "outbox ((intervalTick ^^ n) (startHandshake r)) = outbox r @ replicate n READY \<and>
         outbox ((intervalTick ^^ m) (receiveACK ((intervalTick ^^ n) (startHandshake r))))
           = outbox r @ replicate n READY \<and>
         posted (fold sendMessageToIframe cmds c) = posted c \<and>
         messageQueue (fold sendMessageToIframe cmds c) = messageQueue c @ cmds \<and>
         posted (handleViewerReady initial (fold sendMessageToIframe cmds c))
           = posted c @ [ACK] @ messageQueue c @ cmds @ initial \<and>
         messageQueue (handleViewerReady initial (fold sendMessageToIframe cmds c)) = []"
proof -
  let ?r0 = "startHandshake r"
  have armed: "handshakeInterval ?r0" "hasParent ?r0" "outbox ?r0 = outbox r"
    using assms(1) by (simp_all add: startHandshake_def)
  from intervalTick_armed[OF armed(1,2), of n] armed(3)
  have ready: "outbox ((intervalTick ^^ n) ?r0) = outbox r @ replicate n READY" by simp
  have quiet: "outbox ((intervalTick ^^ m) (receiveACK ((intervalTick ^^ n) ?r0)))
      = outbox r @ replicate n READY"
    using receiveACK_clears[of "(intervalTick ^^ n) ?r0"] ready
    by (simp add: intervalTick_cleared)
  let ?c1 = "fold sendMessageToIframe cmds c"
  have c1: "?c1 = c\<lparr>messageQueue := messageQueue c @ cmds\<rparr>"
    by (rule fold_send_queued[OF assms(2,3)])
  have hv: "handleViewerReady initial ?c1
      = c\<lparr>isIframeReady := True, messageQueue := [],
           posted := posted c @ [ACK] @ messageQueue c @ cmds @ initial\<rparr>"
    using assms(2)
    by (simp add: c1 handleViewerReady_def Let_def flushQueue_all fold_send_posted
        del: flushQueue.simps)
  show ?thesis
    using ready quiet by (simp add: hv) (simp add: c1)
qed

theorem C3_handshake_witness:
  "hasParent loadedRenderer \<and> iframe waitingController \<and> \<not> isIframeReady waitingController \<and>
   outbox ((intervalTick ^^ 3) (startHandshake loadedRenderer)) = [READY, READY, READY] \<and>
   outbox ((intervalTick ^^ 2) (receiveACK ((intervalTick ^^ 3) (startHandshake loadedRenderer))))
     = [READY, READY, READY] \<and>
   posted (handleViewerReady [Command ''font'']
      (fold sendMessageToIframe [Command ''content'', Command ''margin''] waitingController))
     = [ACK, Command ''content'', Command ''margin'', Command ''font'']"
proof -
  have h1: "hasParent loadedRenderer" by (simp add: loadedRenderer_def)
  have h2: "iframe waitingController" by (simp add: waitingController_def)
  have h3: "\<not> isIframeReady waitingController" by (simp add: waitingController_def)
  have o: "outbox loadedRenderer = []" by (simp add: loadedRenderer_def)
  have p: "posted waitingController = []" "messageQueue waitingController = []"
    by (simp_all add: waitingController_def)
  from C3_handshake [OF h1 h2 h3, of 3 2 "[Command ''content'', Command ''margin'']"
      "[Command ''font'']"] h1 h2 h3
  show ?thesis by (simp add: o p numeral_3_eq_3)
qed

section \<open>Properties of the render executor\<close>



lemma finallyBlock_idle:
  "pendingRenderRequest s = None \<Longrightarrow> finallyBlock s = s\<lparr>isRendering := False\<rparr>"
  by (subst finallyBlock.simps) (simp add: Let_def)

lemma handlePagedRender_free:
  "\<not> isRendering s \<Longrightarrow> pendingRenderRequest s = None \<Longrightarrow>
   handlePagedRender extra s =
     (let s2 = beforePreview (s\<lparr>currentStyles := currentStyles s ++ extra\<rparr>)
      in if pagedLoaded s then s2
         else (afterPreview (console_error PagedNotFound s2))\<lparr>isRendering := False\<rparr>)"
proof -
  let ?s2 = "beforePreview (s\<lparr>currentStyles := currentStyles s ++ extra\<rparr>)"
  assume a: "\<not> isRendering s" "pendingRenderRequest s = None"
  have p: "pagedLoaded ?s2 = pagedLoaded s"
    and n: "pendingRenderRequest (afterPreview (console_error PagedNotFound ?s2)) = None"
    using a(2)
    by (simp_all add: beforePreview_def afterPreview_def ensureA4PageRule_def
        restoreCleanDom_def handleStyleUpdate_def setProperties_def postToParent_def console_error_def Let_def)
  show ?thesis
    using a(1) by (subst handlePagedRender.simps) (simp add: Let_def p n)
qed

lemma finallyBlock_pending:
  "pendingRenderRequest s = Some nextStyles \<Longrightarrow>
   finallyBlock s =
     handlePagedRender nextStyles (s\<lparr>isRendering := False, pendingRenderRequest := None\<rparr>)"
  by (subst finallyBlock.simps) (simp add: Let_def)

lemma passesBegun_beforePreview [simp]: "passesBegun (beforePreview s) = passesBegun s + 1"
  by (simp add: passesBegun_def beforePreview_def ensureA4PageRule_def restoreCleanDom_def
      handleStyleUpdate_def setProperties_def postToParent_def Let_def)

lemma passesBegun_afterPreview [simp]: "passesBegun (afterPreview s) = passesBegun s"
  by (simp add: passesBegun_def afterPreview_def postToParent_def Let_def)

lemma passesBegun_catchBlock [simp]: "passesBegun (catchBlock e s) = passesBegun s"
  by (simp add: passesBegun_def catchBlock_def console_error_def Let_def)

lemma passesBegun_updates [simp]:
  "passesBegun (s\<lparr>page := d\<rparr>) = passesBegun s"
  "passesBegun (s\<lparr>isRendering := b\<rparr>) = passesBegun s"
  "passesBegun (s\<lparr>pendingRenderRequest := q\<rparr>) = passesBegun s"
  "passesBegun (s\<lparr>currentStyles := m\<rparr>) = passesBegun s"
  "passesBegun (console_error l s) = passesBegun s"
  by (simp_all add: passesBegun_def console_error_def)

text \<open>The state in which the \<open>try\<close> block or the \<open>catch\<close> block leaves a pass.\<close>

lemma settled_fields:
  "pendingRenderRequest (afterPreview (s\<lparr>page := d\<rparr>)) = pendingRenderRequest s"
  "pendingRenderRequest (catchBlock e (s\<lparr>page := d\<rparr>)) = pendingRenderRequest s"
  "currentStyles (afterPreview (s\<lparr>page := d\<rparr>)) = currentStyles s"
  "currentStyles (catchBlock e (s\<lparr>page := d\<rparr>)) = currentStyles s"
  "rootStyle (afterPreview (s\<lparr>page := d\<rparr>)) = rootStyle s"
  "rootStyle (catchBlock e (s\<lparr>page := d\<rparr>)) = rootStyle s"
  "pagedLoaded (afterPreview (s\<lparr>page := d\<rparr>)) = pagedLoaded s"
  "pagedLoaded (catchBlock e (s\<lparr>page := d\<rparr>)) = pagedLoaded s"
  by (simp_all add: afterPreview_def catchBlock_def postToParent_def console_error_def Let_def)

lemma beforePreview_fields:
  "isRendering (beforePreview s)"
  "pendingRenderRequest (beforePreview s) = pendingRenderRequest s"
  "currentStyles (beforePreview s) = currentStyles s"
  "rootStyle (beforePreview s) = setProperties (currentStyles s) (rootStyle s)"
  "pagedLoaded (beforePreview s) = pagedLoaded s"
  "errorLog (beforePreview s) = errorLog s"
  "outbox (beforePreview s) = outbox s @ [MsgRendering]"
  "originalBody (beforePreview s) = originalBody s"
  "originalHead (beforePreview s) = originalHead s"
  by (simp_all add: beforePreview_def ensureA4PageRule_def restoreCleanDom_def
      handleStyleUpdate_def postToParent_def Let_def)

text \<open>
  What the \<open>finally\<close> block does with a pending request \<open>q\<close> once a pass has ended in
  state \<open>t\<close>: exactly one further pass begins, on the styles of \<open>q\<close>.
\<close>

lemma retry_once:
  assumes "pendingRenderRequest t = Some q"
  shows "passesBegun (finallyBlock t) = passesBegun t + 1 \<and>
         pendingRenderRequest (finallyBlock t) = None \<and>
         currentStyles (finallyBlock t) = currentStyles t ++ q \<and>
         rootStyle (finallyBlock t) = setProperties (currentStyles t ++ q) (rootStyle t) \<and>
         isRendering (finallyBlock t) = pagedLoaded t \<and>
         pagedLoaded (finallyBlock t) = pagedLoaded t"
proof -
  let ?u = "t\<lparr>isRendering := False, pendingRenderRequest := None\<rparr>"
  have f: "finallyBlock t = handlePagedRender q ?u"
    by (rule finallyBlock_pending[OF assms])
  have "\<not> isRendering ?u" "pendingRenderRequest ?u = None" by simp_all
  from handlePagedRender_free[OF this, of q] show ?thesis
    unfolding f
    by (simp add: Let_def beforePreview_fields afterPreview_def console_error_def
        postToParent_def passesBegun_def)
qed



text \<open>
  Claim C4, as stated, fails: the \<open>catch\<close> block of the render pass has no \<open>throw\<close>.
  When the preview throws, the call that began the pass is fulfilled, not rejected, and
  nothing is posted to the host: neither an error nor the end of the pass.
\<close>

theorem C4_counterexample:
  "snd (previewSettled (PreviewThrew ''layout failed'' emptyPage) busyRenderer)
     \<noteq> Rejected ''layout failed'' \<and>
   outbox (fst (previewSettled (PreviewThrew ''layout failed'' emptyPage) busyRenderer))
     = outbox busyRenderer"
proof -
  have "pendingRenderRequest (catchBlock ''layout failed'' (busyRenderer\<lparr>page := emptyPage\<rparr>))
      = None"
    by (simp add: settled_fields) (simp add: busyRenderer_def loadedRenderer_def)
  from finallyBlock_idle[OF this] show ?thesis
    by (simp add: previewSettled_def catchBlock_def console_error_def Let_def)
qed

text \<open>
  Claim C4, amended. When the preview of a pass throws, the executor logs the failure on
  the console and assigns the baseline to body and head; it does not throw again, so the
  call that began the pass is fulfilled. The lock is released: with no request pending
  the renderer is idle afterwards, has posted nothing and has no forced page rule; the
  lock is held afterwards only by the pass of a pending request that begins at once.
\<close>

theorem C4_failure_is_swallowed:
  "snd (previewSettled (PreviewThrew e d) s) = Fulfilled \<and>
   body (page (fst (previewSettled (PreviewThrew e d) s))) = originalBody s \<and>
   head (page (fst (previewSettled (PreviewThrew e d) s))) = originalHead s \<and>
   RenderingFailed e \<in> set (errorLog (fst (previewSettled (PreviewThrew e d) s))) \<and>
   (case pendingRenderRequest s of
      None \<Rightarrow>
        fst (previewSettled (PreviewThrew e d) s)
          = s\<lparr>errorLog := errorLog s @ [RenderingFailed e],
               page := d\<lparr>body := originalBody s, head := originalHead s,
                         forcedPageRule := None\<rparr>,
               isRendering := False\<rparr>
    | Some q \<Rightarrow>
        isRendering (fst (previewSettled (PreviewThrew e d) s)) = pagedLoaded s \<and>
        pendingRenderRequest (fst (previewSettled (PreviewThrew e d) s)) = None \<and>
        passesBegun (fst (previewSettled (PreviewThrew e d) s)) = passesBegun s + 1)"
proof -
  let ?t = "catchBlock e (s\<lparr>page := d\<rparr>)"
  let ?s' = "fst (previewSettled (PreviewThrew e d) s)"
  have s': "?s' = finallyBlock ?t" and c: "snd (previewSettled (PreviewThrew e d) s) = Fulfilled"
    by (simp_all add: previewSettled_def)
  have tf: "body (page ?t) = originalBody s" "head (page ?t) = originalHead s"
    "errorLog ?t = errorLog s @ [RenderingFailed e]" "originalBody ?t = originalBody s"
    "originalHead ?t = originalHead s" "pendingRenderRequest ?t = pendingRenderRequest s"
    "pagedLoaded ?t = pagedLoaded s" "passesBegun ?t = passesBegun s"
    by (simp_all add: catchBlock_def console_error_def Let_def passesBegun_def)
  show ?thesis
  proof (cases "pendingRenderRequest s")
    case None
    with tf have n: "pendingRenderRequest ?t = None" by simp
    have "?s' = s\<lparr>errorLog := errorLog s @ [RenderingFailed e],
               page := d\<lparr>body := originalBody s, head := originalHead s,
                         forcedPageRule := None\<rparr>,
               isRendering := False\<rparr>"
      unfolding s' finallyBlock_idle[OF n]
      by (simp add: catchBlock_def console_error_def Let_def)
    with None c show ?thesis by simp
  next
    case (Some q)
    with tf have p: "pendingRenderRequest ?t = Some q" by simp
    let ?u = "?t\<lparr>isRendering := False, pendingRenderRequest := None\<rparr>"
    have f: "?s' = handlePagedRender q ?u"
      unfolding s' by (rule finallyBlock_pending[OF p])
    have u: "\<not> isRendering ?u" "pendingRenderRequest ?u = None" by simp_all
    have dom: "body (page ?s') = originalBody s \<and> head (page ?s') = originalHead s \<and>
        RenderingFailed e \<in> set (errorLog ?s')"
      unfolding f handlePagedRender_free[OF u]
      by (simp add: Let_def beforePreview_def afterPreview_def ensureA4PageRule_def
          restoreCleanDom_def handleStyleUpdate_def setProperties_def postToParent_def console_error_def
          catchBlock_def)
    from retry_once[OF p] tf have
      "isRendering ?s' = pagedLoaded s \<and> pendingRenderRequest ?s' = None \<and>
       passesBegun ?s' = passesBegun s + 1"
      by (simp add: s')
    with dom c Some show ?thesis by simp
  qed
qed

section \<open>Properties of the shared state store\<close>

lemma json_idem:
  "json v = Some w \<Longrightarrow> json w = Some w"
  "json_elems (json_elems xs) = json_elems xs"
  "json_props (json_props kvs) = json_props kvs"
proof (induction v and xs and kvs arbitrary: w rule: json_json_elems_json_props.induct)
  case (10 x xs)
  then show ?case by (cases "json x") auto
next
  case (12 k v kvs)
  then show ?case by (cases "json v") auto
qed auto

lemma getProp_Cons:
  "getProp ((k, v) # kvs) k' = (if k = k' then v else getProp kvs k')"
  "getProp [] k' = Undefined"
  by (simp_all add: getProp_def)

lemma getState_json [simp]: "json_props (getState st) = getState st"
  by (simp add: getState_def json_idem)

lemma getState_update [simp]:
  "getState (st\<lparr>state := x, history := h\<rparr>) = json_props x"
  by (simp add: getState_def)

lemma filter_isInvoked_notifyCallbacks:
  "filter isInvoked (concat (map (notifyCallback a old new key) cbs))
     = map (\<lambda>cb. Invoked key (cb_id cb)) cbs"
  by (induction cbs) (simp_all add: notifyCallback_def split: option.splits)

lemma filter_errors_notifyCallbacks:
  "filter (\<lambda>n. \<not> isInvoked n) (concat (map (notifyCallback a old new key) cbs))
     = concat (map (\<lambda>cb. case cb_run cb a old new of
                            None \<Rightarrow> [] | Some e \<Rightarrow> [ErrorLogged key e]) cbs)"
  by (induction cbs) (simp_all add: notifyCallback_def split: option.splits)

lemma notifyListeners_invokes_all:
  "filter isInvoked (notifyListeners ls a old new) = allCallbacks ls"
  by (induction ls)
     (auto simp: notifyListeners_def allCallbacks_def filter_isInvoked_notifyCallbacks)

lemma notifyListeners_logs_all:
  "filter (\<lambda>n. \<not> isInvoked n) (notifyListeners ls a old new) = allErrors ls a old new"
  by (induction ls)
     (auto simp: notifyListeners_def allErrors_def filter_errors_notifyCallbacks)

lemma dispatch_cases:
  "dispatch now a st =
     (case runMiddleware (middleware st) a (getState st) of
        Inl e \<Rightarrow> Inl e
      | Inr processedAction \<Rightarrow>
          (case reducer now (getState st) processedAction of
             Inl e \<Rightarrow> Inl e
           | Inr newState \<Rightarrow>
               Inr (st\<lparr>state := newState,
                       history :=
                         (if length (history st) \<ge> 50
                          then tl (history st @ [historyEntry now processedAction st newState])
                          else history st @ [historyEntry now processedAction st newState])\<rparr>,
                    notifyListeners (listeners st) processedAction (getState st) newState,
                    newState)))"
  by (simp add: dispatch_def historyEntry_def Let_def split: sum.splits)

lemma twoTopicStore_listeners:
  "listeners twoTopicStore = [(''styles'', [throwingSubscriber]), (''content'', [quietSubscriber])]"
  by (simp add: twoTopicStore_def subscribe_def)

lemma twoTopicStore_middleware:
  "middleware twoTopicStore = [pagedJsMiddleware ''render_1'' exampleTime (\<lambda>t. False)]"
  by (simp add: twoTopicStore_def subscribe_def)

lemma dispatch_updateStyles_notified:
  "notified (dispatch now updateStylesAction twoTopicStore) =
     [Invoked ''styles'' 2, ErrorLogged ''styles'' ''listener failed'', Invoked ''content'' 1]"
proof -
  have g: "getProp (getState twoTopicStore) ''pagedjs'' =
      Obj [(''isReady'', Bool False), (''isRendering'', Bool False),
           (''lastRenderTime'', Null), (''pageCount'', Num 0),
           (''renderQueue'', Arr []), (''error'', Null)]"
    by (simp add: getState_def twoTopicStore_def subscribe_def constructorState_def getProp_def)
  obtain b where m: "runMiddleware (middleware twoTopicStore) updateStylesAction
      (getState twoTopicStore) = Inr b" and b: "atype b = Str ''UPDATE_STYLES''"
    by (simp add: twoTopicStore_middleware pagedJsMiddleware_def g renderTriggerActions_def
        updateStylesAction_def getMember_def getProp_Cons truthy_def withRenderTask_def Let_def)
  obtain newState where r: "reducer now (getState twoTopicStore) b = Inr newState"
    by (simp add: reducer_def b Let_def)
  show ?thesis
    by (simp add: dispatch_cases m r notified_def twoTopicStore_listeners notifyListeners_def
        notifyCallback_def throwingSubscriber_def quietSubscriber_def)
qed

text \<open>
  Claim C9, as stated, fails. The store keeps its subscribers by topic, but a dispatch
  does not look at the topic: an action that updates the styles also calls the
  subscriber registered under \<open>content\<close>, so the subscribers notified by one dispatch
  are not those of one topic.
\<close>

theorem C9_counterexample:
  "notified (dispatch exampleTime updateStylesAction twoTopicStore) =
     [Invoked ''styles'' 2, ErrorLogged ''styles'' ''listener failed'', Invoked ''content'' 1] \<and>
   \<not> (\<exists>topic. \<forall>key i.
          Invoked key i \<in> set (notified (dispatch exampleTime updateStylesAction twoTopicStore))
          \<longrightarrow> key = topic)"
proof -
  have "\<not> (\<exists>topic. \<forall>key i.
      Invoked key i \<in> set [Invoked ''styles'' 2, ErrorLogged ''styles'' ''listener failed'',
                           Invoked ''content'' 1] \<longrightarrow> key = topic)"
  proof
    assume "\<exists>topic. \<forall>key i.
      Invoked key i \<in> set [Invoked ''styles'' 2, ErrorLogged ''styles'' ''listener failed'',
                           Invoked ''content'' 1] \<longrightarrow> key = topic"
    then obtain topic where t: "\<And>key i.
      Invoked key i \<in> set [Invoked ''styles'' 2, ErrorLogged ''styles'' ''listener failed'',
                           Invoked ''content'' 1] \<Longrightarrow> key = topic" by blast
    have a: "''styles'' = topic" by (rule t[of _ 2]) simp
    have b: "''content'' = topic" by (rule t[of _ 1]) simp
    from a b have "''styles'' = ''content''" by (rule trans[OF _ sym])
    then show False by simp
  qed
  then show ?thesis by (simp only: dispatch_updateStyles_notified) simp
qed

text \<open>
  Claim C9, amended. A dispatch that neither the middleware nor the reducer ends with
  an exception calls every subscriber of every topic, whatever the action, in the order
  of the topics and of registration; an exception thrown by a subscriber is logged with
  its topic and the remaining subscribers are called all the same.
\<close>

theorem C9_notify_all_subscribers:
  "(case dispatch now a st of
      Inl e \<Rightarrow> True
    | Inr (st1, ns, newState) \<Rightarrow>
        filter isInvoked ns = allCallbacks (listeners st) \<and>
        (\<exists>processedAction.
           runMiddleware (middleware st) a (getState st) = Inr processedAction \<and>
           filter (\<lambda>n. \<not> isInvoked n) ns
             = allErrors (listeners st) processedAction (getState st) newState))"
  by (simp add: dispatch_cases notifyListeners_invokes_all notifyListeners_logs_all
      split: sum.splits)

theorem C9_notify_all_subscribers_witness:
  "filter isInvoked (notified (dispatch exampleTime updateStylesAction twoTopicStore))
     = [Invoked ''styles'' 2, Invoked ''content'' 1]"
proof -
  have "notified (dispatch exampleTime updateStylesAction twoTopicStore) \<noteq> []"
    by (simp add: dispatch_updateStyles_notified)
  then obtain st1 ns newState where
    d: "dispatch exampleTime updateStylesAction twoTopicStore = Inr (st1, ns, newState)"
    by (cases "dispatch exampleTime updateStylesAction twoTopicStore")
       (auto simp: notified_def)
  from C9_notify_all_subscribers
      [where now = exampleTime and a = updateStylesAction and st = twoTopicStore]
  have "filter isInvoked ns = allCallbacks (listeners twoTopicStore)"
    by (simp add: d)
  then show ?thesis
    by (simp add: d notified_def twoTopicStore_listeners allCallbacks_def
        throwingSubscriber_def quietSubscriber_def)
qed

lemma runMiddleware_passes_unknown:
  "typePreserving ms \<Longrightarrow> unknownType a \<Longrightarrow>
   \<exists>b. runMiddleware ms a s = Inr b \<and> atype b = atype a"
proof (induction ms arbitrary: a)
  case Nil
  then show ?case by simp
next
  case (Cons m ms)
  from Cons.prems(1) have k: "passesUnknown m" and r: "typePreserving ms"
    by (simp_all add: typePreserving_def)
  from k Cons.prems(2) have
    c: "case m a s of Inl e \<Rightarrow> False | Inr None \<Rightarrow> True | Inr (Some b) \<Rightarrow> atype b = atype a"
    unfolding passesUnknown_def by blast
  show ?case
  proof (cases "m a s")
    case (Inl e)
    with c show ?thesis by simp
  next
    case (Inr res)
    show ?thesis
    proof (cases res)
      case None
      with Inr Cons.IH[OF r Cons.prems(2)] show ?thesis by simp
    next
      case (Some b)
      with c Inr have t: "atype b = atype a" by simp
      with Cons.prems(2) have "unknownType b" by (simp add: unknownType_def)
      from Cons.IH[OF r this] t Inr Some show ?thesis by simp
    qed
  qed
qed

lemma reducer_unknown:
  "unknownType a \<Longrightarrow> reducer now s a = Inr (json_props s)"
  by (auto simp: unknownType_def knownActionTypes_def reducer_def Let_def)

lemma pagedJsMiddleware_unknown:
  "unknownType a \<Longrightarrow> pagedJsMiddleware newId now recent a s = Inr (Some a)"
  by (auto simp: unknownType_def knownActionTypes_def pagedJsMiddleware_def
      renderTriggerActions_def Let_def)

lemma passesUnknown_pagedJsMiddleware: "passesUnknown (pagedJsMiddleware newId now recent)"
  by (simp add: passesUnknown_def pagedJsMiddleware_unknown)

text \<open>
  Claim C10. When the type of an action is none of the eight the reducer knows, and
  the middleware of the store hands such actions on with their type (as the
  repository's own middleware does), \<open>dispatch\<close> succeeds; the state it stores and
  returns is the state \<open>getState\<close> showed before, and \<open>getState\<close> shows the same state
  afterwards. One entry is appended to the history, with this state as old and as new
  state (at 50 entries the oldest one is dropped), and every subscriber is notified.
\<close>

theorem C10_unknown_action_keeps_state:
  assumes "typePreserving (middleware st)" and "unknownType a"
  shows "state (storeAfter st (dispatch now a st)) = getState st \<and>
         getState (storeAfter st (dispatch now a st)) = getState st \<and>
         returned (dispatch now a st) = Some (getState st) \<and>
         h_oldState (last (history (storeAfter st (dispatch now a st)))) = getState st \<and>
         h_newState (last (history (storeAfter st (dispatch now a st)))) = getState st \<and>
         atype (h_action (last (history (storeAfter st (dispatch now a st))))) = atype a \<and>
         butlast (history (storeAfter st (dispatch now a st)))
           = (if length (history st) \<ge> 50 then tl (history st) else history st) \<and>
         filter isInvoked (notified (dispatch now a st)) = allCallbacks (listeners st) \<and>
         listeners (storeAfter st (dispatch now a st)) = listeners st"
proof -
  from runMiddleware_passes_unknown[OF assms] obtain b where
    m: "runMiddleware (middleware st) a (getState st) = Inr b" and t: "atype b = atype a"
    by blast
  from t assms(2) have "unknownType b" by (simp add: unknownType_def)
  from reducer_unknown[OF this] have r: "reducer now (getState st) b = Inr (getState st)"
    by simp
  let ?e = "historyEntry now b st (getState st)"
  have d: "dispatch now a st =
           Inr (st\<lparr>state := getState st,
                   history := (if length (history st) \<ge> 50
                               then tl (history st @ [?e]) else history st @ [?e])\<rparr>,
                notifyListeners (listeners st) b (getState st) (getState st),
                getState st)"
    by (simp add: dispatch_cases m r)
  have l: "tl (history st @ [?e]) = tl (history st) @ [?e]" if "length (history st) \<ge> 50"
    using that by (cases "history st") auto
  have e: "h_oldState ?e = getState st" "h_newState ?e = getState st" "h_action ?e = b"
    by (simp_all add: historyEntry_def)
  show ?thesis
    unfolding d
    by (simp add: storeAfter_def notified_def returned_def l e t notifyListeners_invokes_all)
qed

lemma typePreserving_twoTopicStore: "typePreserving (middleware twoTopicStore)"
  by (simp add: typePreserving_def twoTopicStore_middleware passesUnknown_pagedJsMiddleware)

lemma unknownType_unknownAction: "unknownType unknownAction"
  by (simp add: unknownType_def unknownAction_def knownActionTypes_def image_iff)

theorem C10_unknown_action_keeps_state_witness:
  "typePreserving (middleware twoTopicStore) \<and> unknownType unknownAction \<and>
   getState (storeAfter twoTopicStore (dispatch exampleTime unknownAction twoTopicStore))
     = getState twoTopicStore \<and>
   butlast (history (storeAfter twoTopicStore (dispatch exampleTime unknownAction twoTopicStore)))
     = [] \<and>
   filter isInvoked (notified (dispatch exampleTime unknownAction twoTopicStore))
     = [Invoked ''styles'' 2, Invoked ''content'' 1]"
proof -
  have h: "history twoTopicStore = []" by (simp add: twoTopicStore_def subscribe_def)
  from C10_unknown_action_keeps_state [OF typePreserving_twoTopicStore
      unknownType_unknownAction, where now = exampleTime]
    typePreserving_twoTopicStore unknownType_unknownAction
  show ?thesis
    by (simp add: h twoTopicStore_listeners allCallbacks_def throwingSubscriber_def
        quietSubscriber_def)
qed

section \<open>Properties of the render task queue\<close>

lemma hd_insort_key:
  "hd (insort_key f x ys) = (if ys = [] \<or> f x \<le> f (hd ys) then x else hd ys)"
  by (cases ys) auto

lemma hd_sort_key_first_least:
  "xs \<noteq> [] \<Longrightarrow>
   \<exists>pre post. xs = pre @ hd (sort_key f xs) # post \<and>
     (\<forall>u \<in> set pre. f (hd (sort_key f xs)) < f u) \<and>
     (\<forall>u \<in> set post. f (hd (sort_key f xs)) \<le> f u)"
proof (induction xs)
  case Nil
  then show ?case by simp
next
  case (Cons x xs)
  show ?case
  proof (cases "xs = []")
    case True
    then show ?thesis by (intro exI[of _ "[]"]) simp
  next
    case False
    let ?t = "hd (sort_key f xs)"
    from Cons.IH[OF False] obtain pre post where
      xs: "xs = pre @ ?t # post" and pre: "\<forall>u \<in> set pre. f ?t < f u"
      and post: "\<forall>u \<in> set post. f ?t \<le> f u" by blast
    have least: "f ?t \<le> f u" if "u \<in> set xs" for u
    proof -
      from that xs have "u \<in> set pre \<or> u = ?t \<or> u \<in> set post"
        by (metis Un_iff set_ConsD set_append)
      with pre post show ?thesis by auto
    qed
    have ne: "sort_key f xs \<noteq> []" using False by (metis length_sort length_0_conv)
    show ?thesis
    proof (cases "f x \<le> f ?t")
      case True
      then have h: "hd (sort_key f (x # xs)) = x" by (simp add: hd_insort_key)
      have "\<forall>u \<in> set xs. f x \<le> f u" using True least by (meson order_trans)
      then show ?thesis unfolding h by (intro exI[of _ "[]"] exI[of _ xs]) simp
    next
      case gt: False
      with ne have h: "hd (sort_key f (x # xs)) = ?t" by (simp add: hd_insort_key)
      show ?thesis unfolding h
        using xs pre post gt by (intro exI[of _ "x # pre"] exI[of _ post]) auto
    qed
  qed
qed

lemma processQueue_skips:
  "isProcessing p \<or> pj_isRendering pj \<or> pj_renderQueue pj = [] \<Longrightarrow>
   processQueue mgr now p pj = (p, pj, [], None)"
  by (auto simp: processQueue_def)

lemma processQueue_waits:
  assumes "\<not> isProcessing p" and "\<not> pj_isRendering pj" and "pj_renderQueue pj \<noteq> []"
  shows "processQueue None now p pj =
     (p\<lparr>isProcessing := False\<rparr>,
      pj\<lparr>pj_isRendering := False, pj_lastRenderTime := Some now,
         pj_renderQueue := [], pj_error := Null\<rparr>,
      [], None)"
  using assms by (simp add: processQueue_def executeRenderTask_def Let_def)

lemma processQueue_runs:
  assumes "\<not> isProcessing p" and "\<not> pj_isRendering pj" and "pj_renderQueue pj \<noteq> []"
    and "r = \<lparr>req_reason = reason (hd (sort_key priority (pj_renderQueue pj))),
               req_taskId = task_id (hd (sort_key priority (pj_renderQueue pj))),
               req_priority = priority (hd (sort_key priority (pj_renderQueue pj)))\<rparr>"
  shows "processQueue (Some performUpdate) now p pj =
     (case performUpdate r of
        None \<Rightarrow>
          (p\<lparr>isProcessing := False\<rparr>,
           pj\<lparr>pj_isRendering := False, pj_lastRenderTime := Some now,
              pj_renderQueue := [], pj_error := Null\<rparr>,
           [r], None)
      | Some error \<Rightarrow>
          (case error of
             ThrownNullish \<Rightarrow>
               (p\<lparr>isProcessing := False\<rparr>, pj\<lparr>pj_isRendering := True, pj_error := Null\<rparr>,
                [r], Some TypeError)
           | ThrownValue msg \<Rightarrow>
               (p\<lparr>isProcessing := False\<rparr>,
                pj\<lparr>pj_isRendering := False,
                   pj_error := (if truthy msg then msg else Str defaultRenderError)\<rparr>,
                [r], None)))"
  using assms
  by (simp add: processQueue_def executeRenderTask_def Let_def
      split: option.splits thrown.splits)

lemma hd_sorted_queuedSlice:
  "hd (sort_key priority (pj_renderQueue queuedSlice)) = contentTask"
  by (simp add: queuedSlice_def stylesTask_def contentTask_def getRenderPriority_def)

lemma processQueue_queuedSlice:
  "processQueue acceptingManager exampleTime idleProcessor queuedSlice =
     (idleProcessor,
      \<lparr>pj_isRendering = False, pj_renderQueue = [],
       pj_lastRenderTime = Some exampleTime, pj_error = Null\<rparr>,
      [\<lparr>req_reason = ''SET_CONTENT'', req_taskId = ''render_2'', req_priority = 1\<rparr>], None)"
  by (simp add: processQueue_def acceptingManager_def idleProcessor_def queuedSlice_def
      stylesTask_def contentTask_def getRenderPriority_def executeRenderTask_def Let_def)

lemma processQueue_queuedSlice_waits:
  "processQueue None exampleTime idleProcessor queuedSlice =
     (idleProcessor,
      \<lparr>pj_isRendering = False, pj_renderQueue = [],
       pj_lastRenderTime = Some exampleTime, pj_error = Null\<rparr>,
      [], None)"
  by (simp add: processQueue_def idleProcessor_def queuedSlice_def
      stylesTask_def contentTask_def getRenderPriority_def executeRenderTask_def Let_def)

text \<open>
  Claim C1, as stated, fails. Take a style update and a content change in the queue.
  Without a render manager, which is how the sources run (nothing installs
  \<open>window.pagedJsManager\<close>), the executor is handed nothing at all, and the queue is
  emptied all the same. With a manager that accepts every request, the executor is
  handed one request, which names the content change alone: its reason, its identifier,
  its priority. The queue is emptied, so the style update is dropped without having
  been handed to the executor in any form.
\<close>

theorem C1_counterexample:
  "map task_id (pj_renderQueue queuedSlice) = [''render_1'', ''render_2''] \<and>
   handed (processQueue None exampleTime idleProcessor queuedSlice) = [] \<and>
   pj_renderQueue (sliceAfter (processQueue None exampleTime idleProcessor queuedSlice))
     = [] \<and>
   handed (processQueue acceptingManager exampleTime idleProcessor queuedSlice)
     = [\<lparr>req_reason = ''SET_CONTENT'', req_taskId = ''render_2'', req_priority = 1\<rparr>] \<and>
   pj_renderQueue (sliceAfter (processQueue acceptingManager exampleTime idleProcessor queuedSlice))
     = []"
  by (simp add: processQueue_queuedSlice processQueue_queuedSlice_waits handed_def
      sliceAfter_def)
     (simp add: queuedSlice_def stylesTask_def contentTask_def)

text \<open>
  Claim C1, amended. Each trigger restarts the debounce timer, 300 ms from the trigger.
  When the timer fires while the processor is busy, a pass is marked as running or the
  queue is empty, nothing happens. Otherwise one task is selected: the one with the
  lowest priority value, and of several such the one queued first. Without a render
  manager nothing is handed to an executor: the processor waits, then clears the whole
  queue and records the time. With a render manager the executor is handed one
  request, made of the reason, identifier and priority of the selected task and
  nothing of the others. When the executor returns, the whole queue is cleared and the
  time recorded. When it throws a value other than \<open>null\<close> and \<open>undefined\<close>, the queue is
  kept, the pass is marked as over and the message of the value, or a default text if
  it has none that counts as true, is recorded as the error. When it throws \<open>null\<close> or
  \<open>undefined\<close>, the queue is kept, no error is recorded, the pass stays marked as
  running and the call rejects. The processor is free again in every case. The tasks
  are never executed one by one.
\<close>

theorem C1_timer_runs_one_task:
  assumes "\<not> isProcessing p" and "\<not> pj_isRendering pj" and "pj_renderQueue pj \<noteq> []"
    and "nextTask = hd (sort_key priority (pj_renderQueue pj))"
    and "r = \<lparr>req_reason = reason nextTask, req_taskId = task_id nextTask,
               req_priority = priority nextTask\<rparr>"
  shows "(\<exists>pre post.
            pj_renderQueue pj = pre @ nextTask # post \<and>
            (\<forall>u \<in> set pre. priority nextTask < priority u) \<and>
            (\<forall>u \<in> set post. priority nextTask \<le> priority u)) \<and>
         processQueue None now p pj
           = (p\<lparr>isProcessing := False\<rparr>,
              pj\<lparr>pj_isRendering := False, pj_lastRenderTime := Some now,
                 pj_renderQueue := [], pj_error := Null\<rparr>,
              [], None) \<and>
         (performUpdate r = None \<longrightarrow>
            processQueue (Some performUpdate) now p pj
              = (p\<lparr>isProcessing := False\<rparr>,
                 pj\<lparr>pj_isRendering := False, pj_lastRenderTime := Some now,
                    pj_renderQueue := [], pj_error := Null\<rparr>,
                 [r], None)) \<and>
         (performUpdate r = Some (ThrownValue msg) \<longrightarrow>
            processQueue (Some performUpdate) now p pj
              = (p\<lparr>isProcessing := False\<rparr>,
                 pj\<lparr>pj_isRendering := False,
                    pj_error := (if truthy msg then msg else Str defaultRenderError)\<rparr>,
                 [r], None)) \<and>
         (performUpdate r = Some ThrownNullish \<longrightarrow>
            processQueue (Some performUpdate) now p pj
              = (p\<lparr>isProcessing := False\<rparr>, pj\<lparr>pj_isRendering := True, pj_error := Null\<rparr>,
                 [r], Some TypeError)) \<and>
         (isProcessing p0 \<or> pj_isRendering pj0 \<or> pj_renderQueue pj0 = [] \<longrightarrow>
            processQueue mgr now p0 pj0 = (p0, pj0, [], None)) \<and>
         processingTimeout (scheduleProcessing t2 (scheduleProcessing t1 p)) = Some (t2 + 300)"
proof -
  note run = processQueue_runs[OF assms(1,2,3), of r performUpdate now]
  have r: "r = \<lparr>req_reason = reason (hd (sort_key priority (pj_renderQueue pj))),
               req_taskId = task_id (hd (sort_key priority (pj_renderQueue pj))),
               req_priority = priority (hd (sort_key priority (pj_renderQueue pj)))\<rparr>"
    using assms(4,5) by simp
  have a: "\<exists>pre post.
            pj_renderQueue pj = pre @ nextTask # post \<and>
            (\<forall>u \<in> set pre. priority nextTask < priority u) \<and>
            (\<forall>u \<in> set post. priority nextTask \<le> priority u)"
    unfolding assms(4) by (rule hd_sort_key_first_least[OF assms(3)])
  have b: "processQueue None now p pj
           = (p\<lparr>isProcessing := False\<rparr>,
              pj\<lparr>pj_isRendering := False, pj_lastRenderTime := Some now,
                 pj_renderQueue := [], pj_error := Null\<rparr>,
              [], None)"
    by (rule processQueue_waits[OF assms(1,2,3)])
  have c: "performUpdate r = None \<longrightarrow>
            processQueue (Some performUpdate) now p pj
              = (p\<lparr>isProcessing := False\<rparr>,
                 pj\<lparr>pj_isRendering := False, pj_lastRenderTime := Some now,
                    pj_renderQueue := [], pj_error := Null\<rparr>,
                 [r], None)"
    using run[OF r] by simp
  have d: "performUpdate r = Some (ThrownValue msg) \<longrightarrow>
            processQueue (Some performUpdate) now p pj
              = (p\<lparr>isProcessing := False\<rparr>,
                 pj\<lparr>pj_isRendering := False,
                    pj_error := (if truthy msg then msg else Str defaultRenderError)\<rparr>,
                 [r], None)"
    using run[OF r] by simp
  have e: "performUpdate r = Some ThrownNullish \<longrightarrow>
            processQueue (Some performUpdate) now p pj
              = (p\<lparr>isProcessing := False\<rparr>, pj\<lparr>pj_isRendering := True, pj_error := Null\<rparr>,
                 [r], Some TypeError)"
    using run[OF r] by simp
  have f: "isProcessing p0 \<or> pj_isRendering pj0 \<or> pj_renderQueue pj0 = [] \<longrightarrow>
            processQueue mgr now p0 pj0 = (p0, pj0, [], None)"
    by (simp add: processQueue_skips)
  have g: "processingTimeout (scheduleProcessing t2 (scheduleProcessing t1 p)) = Some (t2 + 300)"
    by (simp add: scheduleProcessing_def)
  from a b c d e f g show ?thesis by blast
qed

theorem C1_timer_runs_one_task_witness:
  "\<not> isProcessing idleProcessor \<and> \<not> pj_isRendering queuedSlice \<and>
   pj_renderQueue queuedSlice \<noteq> [] \<and>
   contentTask = hd (sort_key priority (pj_renderQueue queuedSlice)) \<and>
   processQueue None exampleTime idleProcessor queuedSlice
     = (idleProcessor,
        \<lparr>pj_isRendering = False, pj_renderQueue = [],
         pj_lastRenderTime = Some exampleTime, pj_error = Null\<rparr>,
        [], None) \<and>
   processQueue acceptingManager exampleTime idleProcessor queuedSlice
     = (idleProcessor,
        \<lparr>pj_isRendering = False, pj_renderQueue = [],
         pj_lastRenderTime = Some exampleTime, pj_error = Null\<rparr>,
        [\<lparr>req_reason = ''SET_CONTENT'', req_taskId = ''render_2'', req_priority = 1\<rparr>],
        None) \<and>
   processQueue failingManager exampleTime idleProcessor queuedSlice
     = (idleProcessor,
        \<lparr>pj_isRendering = False, pj_renderQueue = [stylesTask, contentTask],
         pj_lastRenderTime = None, pj_error = Str ''layout failed''\<rparr>,
        [\<lparr>req_reason = ''SET_CONTENT'', req_taskId = ''render_2'', req_priority = 1\<rparr>],
        None) \<and>
   processQueue rejectingManager exampleTime idleProcessor queuedSlice
     = (idleProcessor,
        \<lparr>pj_isRendering = True, pj_renderQueue = [stylesTask, contentTask],
         pj_lastRenderTime = None, pj_error = Null\<rparr>,
        [\<lparr>req_reason = ''SET_CONTENT'', req_taskId = ''render_2'', req_priority = 1\<rparr>],
        Some TypeError) \<and>
   processingTimeout (scheduleProcessing 1200 (scheduleProcessing 1100 idleProcessor))
     = Some 1500"
proof -
  have h1: "\<not> isProcessing idleProcessor" by (simp add: idleProcessor_def)
  have h2: "\<not> pj_isRendering queuedSlice" by (simp add: queuedSlice_def)
  have h3: "pj_renderQueue queuedSlice \<noteq> []" by (simp add: queuedSlice_def)
  have h4: "contentTask = hd (sort_key priority (pj_renderQueue queuedSlice))"
    by (simp add: hd_sorted_queuedSlice)
  have h5: "\<lparr>req_reason = ''SET_CONTENT'', req_taskId = ''render_2'', req_priority = 1\<rparr>
      = \<lparr>req_reason = reason contentTask, req_taskId = task_id contentTask,
         req_priority = priority contentTask\<rparr>"
    by (simp add: contentTask_def getRenderPriority_def)
  have p: "idleProcessor\<lparr>isProcessing := False\<rparr> = idleProcessor"
    by (simp add: idleProcessor_def)
  have q: "queuedSlice\<lparr>pj_isRendering := False, pj_lastRenderTime := Some exampleTime,
              pj_renderQueue := [], pj_error := Null\<rparr>
      = \<lparr>pj_isRendering = False, pj_renderQueue = [],
         pj_lastRenderTime = Some exampleTime, pj_error = Null\<rparr>"
    "queuedSlice\<lparr>pj_isRendering := True, pj_error := Null\<rparr>
      = \<lparr>pj_isRendering = True, pj_renderQueue = [stylesTask, contentTask],
         pj_lastRenderTime = None, pj_error = Null\<rparr>"
    "queuedSlice\<lparr>pj_isRendering := False, pj_error := Str ''layout failed''\<rparr>
      = \<lparr>pj_isRendering = False, pj_renderQueue = [stylesTask, contentTask],
         pj_lastRenderTime = None, pj_error = Str ''layout failed''\<rparr>"
    by (simp_all add: queuedSlice_def)
  from C1_timer_runs_one_task [OF h1 h2 h3 h4 h5,
      where performUpdate = "\<lambda>r. None" and now = exampleTime and ?t2.0 = 1200 and ?t1.0 = 1100
        and ?p0.0 = idleProcessor and ?pj0.0 = queuedSlice and mgr = None]
  have ok: "processQueue None exampleTime idleProcessor queuedSlice
     = (idleProcessor,
        \<lparr>pj_isRendering = False, pj_renderQueue = [],
         pj_lastRenderTime = Some exampleTime, pj_error = Null\<rparr>,
        [], None) \<and>
   processQueue acceptingManager exampleTime idleProcessor queuedSlice
     = (idleProcessor,
        \<lparr>pj_isRendering = False, pj_renderQueue = [],
         pj_lastRenderTime = Some exampleTime, pj_error = Null\<rparr>,
        [\<lparr>req_reason = ''SET_CONTENT'', req_taskId = ''render_2'', req_priority = 1\<rparr>],
        None) \<and>
   processingTimeout (scheduleProcessing 1200 (scheduleProcessing 1100 idleProcessor))
     = Some 1500"
    by (simp add: p q acceptingManager_def)
  from C1_timer_runs_one_task [OF h1 h2 h3 h4 h5,
      where performUpdate = "\<lambda>r. Some ThrownNullish" and now = exampleTime
        and ?p0.0 = idleProcessor and ?pj0.0 = queuedSlice and mgr = None]
  have no: "processQueue rejectingManager exampleTime idleProcessor queuedSlice
     = (idleProcessor,
        \<lparr>pj_isRendering = True, pj_renderQueue = [stylesTask, contentTask],
         pj_lastRenderTime = None, pj_error = Null\<rparr>,
        [\<lparr>req_reason = ''SET_CONTENT'', req_taskId = ''render_2'', req_priority = 1\<rparr>],
        Some TypeError)"
    by (simp add: p q rejectingManager_def)
  from C1_timer_runs_one_task [OF h1 h2 h3 h4 h5,
      where performUpdate = "\<lambda>r. Some (ThrownValue (Str ''layout failed''))"
        and msg = "Str ''layout failed''" and now = exampleTime
        and ?p0.0 = idleProcessor and ?pj0.0 = queuedSlice and mgr = None]
  have err: "processQueue failingManager exampleTime idleProcessor queuedSlice
     = (idleProcessor,
        \<lparr>pj_isRendering = False, pj_renderQueue = [stylesTask, contentTask],
         pj_lastRenderTime = None, pj_error = Str ''layout failed''\<rparr>,
        [\<lparr>req_reason = ''SET_CONTENT'', req_taskId = ''render_2'', req_priority = 1\<rparr>],
        None)"
    by (simp add: p q failingManager_def truthy_def)
  from h1 h2 h3 h4 ok err no show ?thesis by blast
qed

end
